theory Spec2Isabelle
  imports Main
begin

section \<open>The library bot: tables, configuration and replies\<close>

text \<open>
  The bot keeps three SQLite tables and answers chat commands. The model follows
  \<^verbatim>\<open>librarybot.py\<close> command by command.

  \<^item> \<^verbatim>\<open>books\<close> and \<^verbatim>\<open>users\<close> have a primary key (\<^verbatim>\<open>isbn\<close>, \<^verbatim>\<open>userid\<close>), so each is a
    map from the key to the remaining columns.
  \<^item> \<^verbatim>\<open>loans\<close> has no key: it is the list of its rows, in insertion order.
  \<^item> A \<^verbatim>\<open>datetime\<close> is its number of microseconds since \<^verbatim>\<open>datetime.min\<close> (an \<open>int\<close>);
    the bot stores \<^verbatim>\<open>str(datetime)\<close> in a text column, modelled by the same number.
    Every reading of the clock is an argument of the command: \<^verbatim>\<open>borrow\<close> reads it
    twice, \<^verbatim>\<open>due\<close> once for each loan it lists.
  \<^item> Python's integers are unbounded \<open>int\<close>. The \<^verbatim>\<open>available\<close> column is an \<open>int\<close> as
    well, which is what SQLite stores as long as the number and the results of its
    arithmetic stay within 64 bits (\<open>int64\<close>); beyond, SQLite goes over to floating
    point, which is not modelled.
  \<^item> The bot splices texts into its SQL between single quotes. A text with a single
    quote becomes part of the statement, and what the statement then does is not
    modelled. The texts that any user can send (the ISBN and the user name of
    \<^verbatim>\<open>borrow\<close>) and the counts of \<^verbatim>\<open>add\<close> and \<^verbatim>\<open>remove\<close> are checked by the model:
    outside of what it covers, a command ends with \<open>NotModelled\<close>, and the state beside
    it says nothing about the state of the bot. The ISBN that the administrator types
    for the other commands is taken to be free of quotes, and a user-id text to be the
    decimal text of the integer it is modelled by.
  \<^item> Random emoji and the wording of replies are left out: a reply is a constructor of
    \<open>message\<close>, sent on a \<open>channel\<close>.
\<close>

type_synonym timestamp = int

definition DAY :: int where
  "DAY = 86400000000"

record book =
  title :: string
  binding :: string
  authors :: string
  series :: "string option"
  available :: int
  location :: "string option"

record user =
  username :: string
  banned :: bool

record loan =
  rdate :: "timestamp option"
  bdate :: timestamp
  estrdate :: timestamp
  returned :: bool
  userid :: int
  isbn :: string

record db =
  books :: "string \<rightharpoonup> book"
  users :: "int \<rightharpoonup> user"
  loans :: "loan list"
  foreign_keys :: bool

text \<open>
  \<open>foreign_keys\<close> is the connection's \<^verbatim>\<open>PRAGMA foreign_keys\<close>, switched on by the
  \<^verbatim>\<open>init\<close> command only; \<^verbatim>\<open>loans.isbn\<close> references \<^verbatim>\<open>books.isbn\<close>.
\<close>

record config =
  LOAN_PERIOD :: int
  MAX_LOANS :: int
  ADMIN_USER :: int

datatype error = ValueError | TypeError | IntegrityError | OverflowError | NotModelled

datatype due_notice = Overdue int | Remaining int

datatype message =
    Welcome int
  | BannedFromBorrowing
  | MessageTheAdmin
  | BookIsYours
  | BorrowMessage
  | NewLoanFrom string
  | IsbnText string
  | NotAvailable
  | LoanLimitReached
  | AlreadyOnLoan
  | NoBooksLoaned
  | HowToBorrow
  | DueLine string "string option" string string int due_notice
  | BookRenewed
  | UserBanned
  | UserUnbanned
  | BookCountModified
  | BookDeleted
  | BookReturned
  | AuthenticationFailure
  | FailedAuthenticationFrom int

datatype channel = Here | DM | Admin

type_synonym sent = "channel \<times> message"

type_synonym outcome = "db \<times> (error + sent list)"

section \<open>Helpers of the source\<close>

text \<open>\<^verbatim>\<open>respond(ctx, messages, dm, admin)\<close>: the administrator's DM when \<open>admin\<close>, else the
  author's DM when \<open>dm\<close>, else the channel of the command.\<close>

definition respond :: "message list \<Rightarrow> bool \<Rightarrow> bool \<Rightarrow> sent list" where
  "respond messages dm admin =
     map (Pair (if admin then Admin else if dm then DM else Here)) messages"

definition auth_check :: "config \<Rightarrow> int \<Rightarrow> bool \<times> sent list" where
  "auth_check cfg user_id =
     (if user_id = ADMIN_USER cfg then (True, [])
      else (False, respond [AuthenticationFailure] False False
                   @ respond [FailedAuthenticationFrom user_id] False True))"

text \<open>
  \<^verbatim>\<open>datetime.strptime(estrdate, '%Y-%m-%d %H:%M:%S.%f')\<close> applied to a text written by
  \<^verbatim>\<open>str(datetime)\<close>: \<^verbatim>\<open>str\<close> leaves the fraction out when the microsecond field is 0,
  and the format then does not match.
\<close>

definition strptime :: "timestamp \<Rightarrow> error + timestamp" where
  "strptime estr = (if estr mod 1000000 = 0 then Inl ValueError else Inr estr)"

text \<open>\<^verbatim>\<open>timedelta.days\<close>: the whole days of a difference, rounded towards minus infinity.\<close>

definition days :: "int \<Rightarrow> int" where
  "days delta = delta div DAY"

text \<open>\<^verbatim>\<open>datetime.date()\<close>, as the number of the calendar day.\<close>

definition date :: "timestamp \<Rightarrow> int" where
  "date t = t div DAY"

text \<open>\<^verbatim>\<open>timedelta(days=n)\<close>: at most 999999999 days in either direction.\<close>

definition timedelta :: "int \<Rightarrow> error + int" where
  "timedelta n = (if \<bar>n\<bar> \<le> 999999999 then Inr (n * DAY) else Inl OverflowError)"

text \<open>The first instant after \<^verbatim>\<open>datetime.max\<close>, the last microsecond of the year 9999;
  and \<^verbatim>\<open>datetime + timedelta\<close>, which has to stay between \<^verbatim>\<open>datetime.min\<close> and
  \<^verbatim>\<open>datetime.max\<close>.\<close>

definition datetime_end :: int where
  "datetime_end = 3652059 * DAY"

definition plus_timedelta :: "timestamp \<Rightarrow> int \<Rightarrow> error + timestamp" where
  "plus_timedelta t d =
     (if 0 \<le> t + d \<and> t + d < datetime_end then Inr (t + d) else Inl OverflowError)"

text \<open>\<^verbatim>\<open>datetime.datetime.now() + datetime.timedelta(days=n)\<close>, for the reading \<open>t\<close> of
  the clock.\<close>

definition days_later :: "timestamp \<Rightarrow> int \<Rightarrow> error + timestamp" where
  "days_later t n = (case timedelta n of Inl e \<Rightarrow> Inl e | Inr d \<Rightarrow> plus_timedelta t d)"

text \<open>A text that stays a text between the single quotes of an SQL statement: it has no
  single quote (and no NUL, which the database module refuses).\<close>

definition plain :: "string \<Rightarrow> bool" where
  "plain t = (CHR 0x27 \<notin> set t \<and> CHR 0x00 \<notin> set t)"

text \<open>A number that SQLite stores and computes as a 64-bit integer.\<close>

definition int64 :: "int \<Rightarrow> bool" where
  "int64 a = (- 9223372036854775808 \<le> a \<and> a \<le> 9223372036854775807)"

section \<open>borrow\<close>

text \<open>The two counting queries of \<^verbatim>\<open>borrow\<close>.\<close>

definition unique_loan :: "db \<Rightarrow> int \<Rightarrow> string \<Rightarrow> nat" where
  "unique_loan s user_id i =
     length (filter (\<lambda>l. userid l = user_id \<and> isbn l = i \<and> \<not> returned l) (loans s))"

definition current_loans :: "db \<Rightarrow> int \<Rightarrow> nat" where
  "current_loans s user_id =
     length (filter (\<lambda>l. userid l = user_id \<and> \<not> returned l) (loans s))"

text \<open>\<^verbatim>\<open>SELECT * FROM books WHERE isbn IS i AND available >= 1\<close>, one row or none.\<close>

definition select_available :: "db \<Rightarrow> string \<Rightarrow> book option" where
  "select_available s i =
     (case books s i of
        None \<Rightarrow> None
      | Some b \<Rightarrow> if available b \<ge> 1 then Some b else None)"

text \<open>\<^verbatim>\<open>UPDATE books SET available = available - 1 WHERE isbn IS i AND available >= 1\<close>.\<close>

definition take_copy :: "db \<Rightarrow> string \<Rightarrow> db" where
  "take_copy s i =
     (case books s i of
        None \<Rightarrow> s
      | Some b \<Rightarrow>
          if available b \<ge> 1
          then s\<lparr>books := (books s)(i \<mapsto> b\<lparr>available := available b - 1\<rparr>)\<rparr>
          else s)"

text \<open>\<^verbatim>\<open>INSERT INTO loans VALUES (NULL, bdate, estrdate, FALSE, user_id, isbn)\<close>.\<close>

definition new_loan :: "int \<Rightarrow> string \<Rightarrow> timestamp \<Rightarrow> timestamp \<Rightarrow> loan" where
  "new_loan user_id i bd estr =
     \<lparr>rdate = None, bdate = bd, estrdate = estr, returned = False, userid = user_id, isbn = i\<rparr>"

definition insert_loan :: "db \<Rightarrow> int \<Rightarrow> string \<Rightarrow> timestamp \<Rightarrow> timestamp \<Rightarrow> db" where
  "insert_loan s user_id i bd estr = s\<lparr>loans := loans s @ [new_loan user_id i bd estr]\<rparr>"

text \<open>
  The part of \<^verbatim>\<open>borrow\<close> after the user row is settled; \<open>messages\<close> holds the welcome,
  if any. The ISBN is spliced into every statement from here on. The text of the
  \<^verbatim>\<open>INSERT\<close> is built after the \<^verbatim>\<open>UPDATE\<close> of the book has run: it reads the clock
  twice, \<open>now\<close> for the borrowing date and \<open>now'\<close> for the due date, and when the due
  date leaves the range of \<^verbatim>\<open>datetime\<close> the exception finds the copy already taken.
\<close>

definition borrow_checks ::
  "config \<Rightarrow> db \<Rightarrow> int \<Rightarrow> string \<Rightarrow> string \<Rightarrow> timestamp \<Rightarrow> timestamp \<Rightarrow> message list
     \<Rightarrow> outcome" where
  "borrow_checks cfg s user_id usr i now now' messages =
     (if \<not> plain i then (s, Inl NotModelled)
      else if unique_loan s user_id i = 0 then
        if int (current_loans s user_id) < MAX_LOANS cfg then
          (case select_available s i of
             Some b \<Rightarrow>
               if \<not> int64 (available b) then (s, Inl NotModelled)
               else
                 (case days_later now' (LOAN_PERIOD cfg) of
                    Inl e \<Rightarrow> (take_copy s i, Inl e)
                  | Inr estr \<Rightarrow>
                      (insert_loan (take_copy s i) user_id i now estr,
                       Inr (respond [NewLoanFrom usr, IsbnText i] False True
                            @ respond (messages @ [BookIsYours, BorrowMessage]) True False)))
           | None \<Rightarrow> (s, Inr (respond (messages @ [NotAvailable]) True False)))
        else (s, Inr (respond (messages @ [LoanLimitReached]) True False))
      else (s, Inr (respond (messages @ [AlreadyOnLoan]) True False)))"

text \<open>\<^verbatim>\<open>borrow\<close>: the name of a user without a row is spliced into the \<^verbatim>\<open>INSERT\<close> of
  the row.\<close>

definition borrow ::
  "config \<Rightarrow> db \<Rightarrow> int \<Rightarrow> string \<Rightarrow> string \<Rightarrow> timestamp \<Rightarrow> timestamp \<Rightarrow> outcome" where
  "borrow cfg s user_id usr i now now' =
     (case users s user_id of
        None \<Rightarrow>
          if \<not> plain usr then (s, Inl NotModelled)
          else
            borrow_checks cfg
              (s\<lparr>users := (users s)(user_id \<mapsto> \<lparr>username = usr, banned = False\<rparr>)\<rparr>)
              user_id usr i now now' [Welcome user_id]
      | Some res \<Rightarrow>
          if banned res
          then (s, Inr (respond [BannedFromBorrowing, MessageTheAdmin] False False))
          else borrow_checks cfg s user_id usr i now now' [])"

section \<open>due\<close>

text \<open>\<^verbatim>\<open>SELECT isbn, estrdate FROM loans WHERE userid = user_id AND returned IS FALSE\<close>.\<close>

definition due_query :: "db \<Rightarrow> int \<Rightarrow> (string \<times> timestamp) list" where
  "due_query s user_id =
     map (\<lambda>l. (isbn l, estrdate l)) (filter (\<lambda>l. userid l = user_id \<and> \<not> returned l) (loans s))"

text \<open>
  The loop of \<^verbatim>\<open>due\<close>: one triple (book row, return date, remaining) per loan. The
  ISBN read from the loan is spliced into the query of the book; the clock is read once
  in each round, \<open>clock k\<close> being the reading of round \<open>k\<close>.
\<close>

fun due_books ::
  "db \<Rightarrow> (nat \<Rightarrow> timestamp) \<Rightarrow> nat \<Rightarrow> (string \<times> timestamp) list
     \<Rightarrow> error + ((string \<times> book) option \<times> int \<times> int) list" where
  "due_books s clock k [] = Inr []"
| "due_books s clock k ((i, estr) # res) =
     (if \<not> plain i then Inl NotModelled
      else
        (case strptime estr of
           Inl e \<Rightarrow> Inl e
         | Inr date_obj \<Rightarrow>
             (case due_books s clock (Suc k) res of
                Inl e \<Rightarrow> Inl e
              | Inr rows \<Rightarrow>
                  Inr ((map_option (Pair i) (books s i), date date_obj,
                        days (date_obj - clock k) + 1) # rows))))"

text \<open>\<^verbatim>\<open>format_book_records(books, display_due_details=True)\<close>: a book that is
  \<^verbatim>\<open>None\<close> cannot be subscripted.\<close>

fun format_book_records :: "((string \<times> book) option \<times> int \<times> int) list \<Rightarrow> error + message list" where
  "format_book_records [] = Inr []"
| "format_book_records ((None, return_date, remaining) # rest) = Inl TypeError"
| "format_book_records ((Some (i, b), return_date, remaining) # rest) =
     (case format_book_records rest of
        Inl e \<Rightarrow> Inl e
      | Inr pretty_books \<Rightarrow>
          Inr (DueLine (title b) (series b) (authors b) i return_date
                 (if remaining \<le> 0 then Overdue \<bar>remaining\<bar> else Remaining remaining)
               # pretty_books))"

definition due :: "db \<Rightarrow> int \<Rightarrow> (nat \<Rightarrow> timestamp) \<Rightarrow> outcome" where
  "due s user_id clock =
     (let res = due_query s user_id in
      if length res = 0 then (s, Inr (respond [NoBooksLoaned, HowToBorrow] False False))
      else
        (case due_books s clock 0 res of
           Inl e \<Rightarrow> (s, Inl e)
         | Inr bs \<Rightarrow>
             (case format_book_records bs of
                Inl e \<Rightarrow> (s, Inl e)
              | Inr messages \<Rightarrow> (s, Inr (respond messages True False)))))"

section \<open>The administrator's commands\<close>

text \<open>\<^verbatim>\<open>renew\<close>: the new date is computed before the \<^verbatim>\<open>UPDATE\<close>, so that an
  \<^verbatim>\<open>OverflowError\<close> leaves the loans as they are.\<close>

definition renew :: "config \<Rightarrow> db \<Rightarrow> int \<Rightarrow> string \<Rightarrow> int \<Rightarrow> int \<Rightarrow> timestamp \<Rightarrow> outcome" where
  "renew cfg s caller i uid n now =
     (case auth_check cfg caller of
        (True, _) \<Rightarrow>
          (case days_later now n of
             Inl e \<Rightarrow> (s, Inl e)
           | Inr new_date \<Rightarrow>
               (s\<lparr>loans := map (\<lambda>l. if isbn l = i \<and> userid l = uid
                                     then l\<lparr>estrdate := new_date\<rparr> else l) (loans s)\<rparr>,
                Inr (respond [BookRenewed] False True)))
      | (False, out) \<Rightarrow> (s, Inr out))"

definition set_banned :: "db \<Rightarrow> int \<Rightarrow> bool \<Rightarrow> db" where
  "set_banned s uid v =
     (case users s uid of
        None \<Rightarrow> s
      | Some u \<Rightarrow> s\<lparr>users := (users s)(uid \<mapsto> u\<lparr>banned := v\<rparr>)\<rparr>)"

definition ban :: "config \<Rightarrow> db \<Rightarrow> int \<Rightarrow> int \<Rightarrow> outcome" where
  "ban cfg s caller uid =
     (case auth_check cfg caller of
        (True, _) \<Rightarrow> (set_banned s uid True, Inr (respond [UserBanned] False True))
      | (False, out) \<Rightarrow> (s, Inr out))"

definition unban :: "config \<Rightarrow> db \<Rightarrow> int \<Rightarrow> int \<Rightarrow> outcome" where
  "unban cfg s caller uid =
     (case auth_check cfg caller of
        (True, _) \<Rightarrow> (set_banned s uid False, Inr (respond [UserUnbanned] False True))
      | (False, out) \<Rightarrow> (s, Inr out))"

text \<open>\<^verbatim>\<open>UPDATE books SET available = available + n WHERE isbn IS i\<close>, as long as the
  sum is one of 64-bit integers.\<close>

definition add_available :: "db \<Rightarrow> string \<Rightarrow> int \<Rightarrow> db" where
  "add_available s i n =
     (case books s i of
        None \<Rightarrow> s
      | Some b \<Rightarrow> s\<lparr>books := (books s)(i \<mapsto> b\<lparr>available := available b + n\<rparr>)\<rparr>)"

text \<open>The sum that \<^verbatim>\<open>add\<close> asks of SQLite is one of 64-bit integers: the book, if there
  is one, holds a 64-bit integer, the count is one, and so is their sum.\<close>

definition sum_int64 :: "db \<Rightarrow> string \<Rightarrow> int \<Rightarrow> bool" where
  "sum_int64 s i n =
     (case books s i of
        None \<Rightarrow> True
      | Some b \<Rightarrow> int64 (available b) \<and> int64 n \<and> int64 (available b + n))"

definition add :: "config \<Rightarrow> db \<Rightarrow> int \<Rightarrow> string \<Rightarrow> int \<Rightarrow> outcome" where
  "add cfg s caller i n =
     (case auth_check cfg caller of
        (True, _) \<Rightarrow>
          if sum_int64 s i n
          then (add_available s i n, Inr (respond [BookCountModified] False True))
          else (s, Inl NotModelled)
      | (False, out) \<Rightarrow> (s, Inr out))"

definition remove :: "config \<Rightarrow> db \<Rightarrow> int \<Rightarrow> string \<Rightarrow> int \<Rightarrow> outcome" where
  "remove cfg s caller i n = add cfg s caller i (- \<bar>n\<bar>)"

text \<open>\<^verbatim>\<open>UPDATE loans SET returned = TRUE, rdate = now WHERE\<close> the row satisfies \<open>P\<close>.\<close>

definition close_loans :: "(loan \<Rightarrow> bool) \<Rightarrow> timestamp \<Rightarrow> loan list \<Rightarrow> loan list" where
  "close_loans P now ls =
     map (\<lambda>l. if P l then l\<lparr>returned := True, rdate := Some now\<rparr> else l) ls"

text \<open>
  \<^verbatim>\<open>delete\<close>: the loans of the book are closed first; then the book row is deleted,
  which SQLite refuses with foreign keys on while a loan row still names the book. The
  exception leaves the update of the loans in place on the connection.
\<close>

definition delete :: "config \<Rightarrow> db \<Rightarrow> int \<Rightarrow> string \<Rightarrow> timestamp \<Rightarrow> outcome" where
  "delete cfg s caller i now =
     (case auth_check cfg caller of
        (True, _) \<Rightarrow>
          (let s1 = s\<lparr>loans := close_loans (\<lambda>l. isbn l = i) now (loans s)\<rparr> in
           if foreign_keys s \<and> books s i \<noteq> None \<and> list_ex (\<lambda>l. isbn l = i) (loans s)
           then (s1, Inl IntegrityError)
           else (s1\<lparr>books := (books s)(i := None)\<rparr>, Inr (respond [BookDeleted] False True)))
      | (False, out) \<Rightarrow> (s, Inr out))"

text \<open>The command \<^verbatim>\<open>return\<close>, the function \<^verbatim>\<open>return_\<close> of the source.\<close>

definition return_book :: "config \<Rightarrow> db \<Rightarrow> int \<Rightarrow> string \<Rightarrow> int \<Rightarrow> timestamp \<Rightarrow> outcome" where
  "return_book cfg s caller i uid now =
     (case auth_check cfg caller of
        (True, _) \<Rightarrow>
          ((add_available s i 1)
             \<lparr>loans := close_loans (\<lambda>l. isbn l = i \<and> userid l = uid) now (loans s)\<rparr>,
           Inr (respond [BookReturned] False False))
      | (False, out) \<Rightarrow> (s, Inr out))"

section \<open>Commands and runs\<close>

datatype command =
    Borrow int string string timestamp timestamp
  | Due int "nat \<Rightarrow> timestamp"
  | Renew int string int int timestamp
  | Ban int int
  | Unban int int
  | Add int string int
  | Remove int string int
  | Delete int string timestamp
  | Return int string int timestamp

fun run_command :: "config \<Rightarrow> db \<Rightarrow> command \<Rightarrow> outcome" where
  "run_command cfg s (Borrow user_id usr i now now') = borrow cfg s user_id usr i now now'"
| "run_command cfg s (Due user_id clock) = due s user_id clock"
| "run_command cfg s (Renew caller i uid n now) = renew cfg s caller i uid n now"
| "run_command cfg s (Ban caller uid) = ban cfg s caller uid"
| "run_command cfg s (Unban caller uid) = unban cfg s caller uid"
| "run_command cfg s (Add caller i n) = add cfg s caller i n"
| "run_command cfg s (Remove caller i n) = remove cfg s caller i n"
| "run_command cfg s (Delete caller i now) = delete cfg s caller i now"
| "run_command cfg s (Return caller i uid now) = return_book cfg s caller i uid now"

definition exec :: "config \<Rightarrow> db \<Rightarrow> command \<Rightarrow> db" where
  "exec cfg s c = fst (run_command cfg s c)"

fun run :: "config \<Rightarrow> db \<Rightarrow> command list \<Rightarrow> db" where
  "run cfg s [] = s"
| "run cfg s (c # cs) = run cfg (exec cfg s c) cs"

section \<open>Observations and example states\<close>

text \<open>The \<^verbatim>\<open>available\<close> column of the book with the given ISBN, if there is one.\<close>

definition copies :: "db \<Rightarrow> string \<Rightarrow> int option" where
  "copies s i = map_option available (books s i)"

text \<open>The \<open>messages\<close> list of \<^verbatim>\<open>borrow\<close> after the lookup of the user: a welcome for a
  user without a row.\<close>

definition greeting :: "db \<Rightarrow> int \<Rightarrow> message list" where
  "greeting s user_id = (case users s user_id of None \<Rightarrow> [Welcome user_id] | Some res \<Rightarrow> [])"

text \<open>A configuration and a small library for concrete runs: user 1 is the administrator.\<close>

definition cfg0 :: config where
  "cfg0 = \<lparr>LOAN_PERIOD = 14, MAX_LOANS = 2, ADMIN_USER = 1\<rparr>"

definition dune :: book where
  "dune = \<lparr>title = ''Dune'', binding = ''Paperback'', authors = ''Frank Herbert'',
           series = None, available = 1, location = None\<rparr>"

definition db0 :: db where
  "db0 = \<lparr>books = [''9780441013593'' \<mapsto> dune], users = Map.empty, loans = [],
          foreign_keys = False\<rparr>"

definition ann :: user where
  "ann = \<lparr>username = ''ann'', banned = False\<rparr>"

text \<open>Two loans of user 7 for the same book: one returned long ago, one still out.\<close>

definition old_loan :: loan where
  "old_loan = \<lparr>rdate = Some 500000001, bdate = 1, estrdate = 1209600000001, returned = True,
               userid = 7, isbn = ''9780441013593''\<rparr>"

definition open_loan :: loan where
  "open_loan = \<lparr>rdate = None, bdate = 600000001, estrdate = 1210200000001, returned = False,
                userid = 7, isbn = ''9780441013593''\<rparr>"

text \<open>The test \<^verbatim>\<open>res[2]\<close> of \<^verbatim>\<open>borrow\<close> on the row of the user, and the table of
  users after \<^verbatim>\<open>borrow\<close> has inserted a missing row.\<close>

definition is_banned :: "db \<Rightarrow> int \<Rightarrow> bool" where
  "is_banned s user_id = (case users s user_id of None \<Rightarrow> False | Some res \<Rightarrow> banned res)"

definition with_user :: "db \<Rightarrow> int \<Rightarrow> string \<Rightarrow> db" where
  "with_user s user_id usr =
     (case users s user_id of
        None \<Rightarrow> s\<lparr>users := (users s)(user_id \<mapsto> \<lparr>username = usr, banned = False\<rparr>)\<rparr>
      | Some res \<Rightarrow> s)"

text \<open>
  Four states in which user 7 asks for Dune, each failing one more check of \<^verbatim>\<open>borrow\<close>
  than the next: \<open>banned_db\<close> (banned, already holds Dune, at the limit of two loans, no
  copy left), \<open>lent_db\<close> (the same, not banned), \<open>full_db\<close> (two other loans, no copy
  left), \<open>out_db\<close> (no copy left); and \<open>empty_db\<close>, with no book at all.
\<close>

definition out_db :: db where
  "out_db = db0\<lparr>books := [''9780441013593'' \<mapsto> dune\<lparr>available := 0\<rparr>],
               users := [7 \<mapsto> ann]\<rparr>"

definition empty_db :: db where
  "empty_db = db0\<lparr>books := Map.empty, users := [7 \<mapsto> ann]\<rparr>"

definition full_db :: db where
  "full_db = out_db\<lparr>loans := [open_loan\<lparr>isbn := ''9780441172719''\<rparr>,
                               open_loan\<lparr>isbn := ''9780441104024''\<rparr>]\<rparr>"

definition lent_db :: db where
  "lent_db = out_db\<lparr>loans := [open_loan, open_loan\<lparr>isbn := ''9780441172719''\<rparr>]\<rparr>"

definition banned_db :: db where
  "banned_db = lent_db\<lparr>users := [7 \<mapsto> ann\<lparr>banned := True\<rparr>]\<rparr>"

text \<open>User 7 with a returned loan and an active loan of Dune.\<close>

definition due_db :: db where
  "due_db = db0\<lparr>users := [7 \<mapsto> ann], loans := [old_loan, open_loan]\<rparr>"

text \<open>A clock for \<^verbatim>\<open>due\<close>, and the library after user 7 has borrowed Dune with the
  clock at the whole second 600000000 when the due date was taken.\<close>

definition clock0 :: "nat \<Rightarrow> timestamp" where
  "clock0 k = 1210200000001 + int k"

definition whole_db :: db where
  "whole_db = \<lparr>books = [''9780441013593'' \<mapsto> dune\<lparr>available := 0\<rparr>],
               users = [7 \<mapsto> ann],
               loans = [\<lparr>rdate = None, bdate = 599999990, estrdate = 1210200000000,
                         returned = False, userid = 7, isbn = ''9780441013593''\<rparr>],
               foreign_keys = False\<rparr>"

text \<open>
  What the model covers, command by command and along a run: the texts spliced into
  the SQL are free of quotes (the ISBN of every command that has one, the name of a
  user who gets a row, the ISBN of every loan that \<^verbatim>\<open>due\<close> lists), and the arithmetic
  on the \<^verbatim>\<open>available\<close> column stays within 64-bit integers.
\<close>

fun covered :: "config \<Rightarrow> db \<Rightarrow> command \<Rightarrow> bool" where
  "covered cfg s (Borrow user_id usr i now now') =
     (plain i \<and> (users s user_id = None \<longrightarrow> plain usr)
      \<and> (case copies s i of None \<Rightarrow> True | Some a \<Rightarrow> int64 a))"
| "covered cfg s (Due user_id clock) =
     list_all (\<lambda>l. userid l = user_id \<and> \<not> returned l \<longrightarrow> plain (isbn l)) (loans s)"
| "covered cfg s (Renew caller i uid n now) = plain i"
| "covered cfg s (Ban caller uid) = True"
| "covered cfg s (Unban caller uid) = True"
| "covered cfg s (Add caller i n) = (plain i \<and> (caller = ADMIN_USER cfg \<longrightarrow> sum_int64 s i n))"
| "covered cfg s (Remove caller i n) =
     (plain i \<and> (caller = ADMIN_USER cfg \<longrightarrow> sum_int64 s i (- \<bar>n\<bar>)))"
| "covered cfg s (Delete caller i now) = plain i"
| "covered cfg s (Return caller i uid now) =
     (plain i \<and> (caller = ADMIN_USER cfg \<longrightarrow> sum_int64 s i 1))"

fun covered_run :: "config \<Rightarrow> db \<Rightarrow> command list \<Rightarrow> bool" where
  "covered_run cfg s [] = True"
| "covered_run cfg s (c # cs) = (covered cfg s c \<and> covered_run cfg (exec cfg s c) cs)"

text \<open>
  The invariant of the stock, book by book: the book with the given ISBN, if there is
  one, has no negative number of available copies. And the side condition under which
  \<^verbatim>\<open>add\<close> and \<^verbatim>\<open>remove\<close> keep it: the count that the administrator applies does not
  take the availability of its book below 0 at the moment it is applied (\<open>in_stock\<close>
  for one command; \<open>stocked\<close> along a run, which is covered as well).
\<close>

definition nonneg_copies :: "db \<Rightarrow> string \<Rightarrow> bool" where
  "nonneg_copies s i = (case copies s i of None \<Rightarrow> True | Some a \<Rightarrow> 0 \<le> a)"

fun in_stock :: "config \<Rightarrow> db \<Rightarrow> command \<Rightarrow> bool" where
  "in_stock cfg s (Add caller i n) =
     (caller = ADMIN_USER cfg \<longrightarrow> (case copies s i of None \<Rightarrow> True | Some a \<Rightarrow> 0 \<le> a + n))"
| "in_stock cfg s (Remove caller i n) =
     (caller = ADMIN_USER cfg \<longrightarrow> (case copies s i of None \<Rightarrow> True | Some a \<Rightarrow> \<bar>n\<bar> \<le> a))"
| "in_stock cfg s c = True"

fun stocked :: "config \<Rightarrow> db \<Rightarrow> command list \<Rightarrow> bool" where
  "stocked cfg s [] = True"
| "stocked cfg s (c # cs) =
     (covered cfg s c \<and> in_stock cfg s c \<and> stocked cfg (exec cfg s c) cs)"

text \<open>A run on the small library: borrow, return, add two copies, remove three; and the
  states it goes through. The loan is borrowed at 599999990 and due 14 days after the
  second reading of the clock, 600000001.\<close>

definition shelf_run :: "command list" where
  "shelf_run = [Borrow 7 ''ann'' ''9780441013593'' 599999990 600000001,
                Return 1 ''9780441013593'' 7 700000001,
                Add 1 ''9780441013593'' 2,
                Remove 1 ''9780441013593'' (- 3)]"

definition shelf_loan :: loan where
  "shelf_loan = \<lparr>rdate = None, bdate = 599999990, estrdate = 1210200000001, returned = False,
                 userid = 7, isbn = ''9780441013593''\<rparr>"

definition shelf1 :: db where
  "shelf1 = \<lparr>books = [''9780441013593'' \<mapsto> dune\<lparr>available := 0\<rparr>], users = [7 \<mapsto> ann],
             loans = [shelf_loan], foreign_keys = False\<rparr>"

definition shelf2 :: db where
  "shelf2 = shelf1\<lparr>books := [''9780441013593'' \<mapsto> dune\<lparr>available := 1\<rparr>],
                  loans := [shelf_loan\<lparr>returned := True, rdate := Some 700000001\<rparr>]\<rparr>"

definition shelf3 :: db where
  "shelf3 = shelf2\<lparr>books := [''9780441013593'' \<mapsto> dune\<lparr>available := 3\<rparr>]\<rparr>"

definition shelf4 :: db where
  "shelf4 = shelf2\<lparr>books := [''9780441013593'' \<mapsto> dune\<lparr>available := 0\<rparr>]\<rparr>"

text \<open>What every command keeps of a loan row: who borrowed which book and when, and the
  fact of having been returned.\<close>

definition loan_kept :: "loan \<Rightarrow> loan \<Rightarrow> bool" where
  "loan_kept l l' =
     (bdate l' = bdate l \<and> userid l' = userid l \<and> isbn l' = isbn l
      \<and> (returned l \<longrightarrow> returned l'))"

text \<open>Two more runs: the same user borrows the same book twice; and the administrator
  renews, returns and deletes a book whose first loan was returned long ago.\<close>

definition twice_run :: "command list" where
  "twice_run = [Borrow 7 ''ann'' ''9780441013593'' 599999990 600000001,
                Borrow 7 ''ann'' ''9780441013593'' 650000001 650000004]"

definition history_run :: "command list" where
  "history_run = [Renew 1 ''9780441013593'' 7 30 800000001,
                  Return 1 ''9780441013593'' 7 810000001,
                  Delete 1 ''9780441013593'' 820000001]"

section \<open>Basic facts\<close>

lemma auth_check_admin: "auth_check cfg (ADMIN_USER cfg) = (True, [])"
  by (simp add: auth_check_def)

lemma books_add_available:
  "books (add_available s i n) j =
     (if j = i then map_option (\<lambda>b. b\<lparr>available := available b + n\<rparr>) (books s i)
      else books s j)"
  by (simp add: add_available_def split: option.splits)

lemma copies_add_available:
  "copies (add_available s i n) j =
     (if j = i then map_option (\<lambda>a. a + n) (copies s i) else copies s j)"
  by (simp add: copies_def books_add_available option.map_comp comp_def)

lemma loans_add_available: "loans (add_available s i n) = loans s"
  by (simp add: add_available_def split: option.splits)

lemma users_add_available: "users (add_available s i n) = users s"
  by (simp add: add_available_def split: option.splits)

lemma fst_add:
  "fst (add cfg s caller i n) =
     (if caller = ADMIN_USER cfg \<and> sum_int64 s i n then add_available s i n else s)"
  by (simp add: add_def auth_check_def)

lemma sum_int64_copies:
  "copies s i = Some a \<Longrightarrow> sum_int64 s i n = (int64 a \<and> int64 n \<and> int64 (a + n))"
  by (auto simp: sum_int64_def copies_def split: option.splits)

lemma int64_minus_abs: "int64 n \<Longrightarrow> int64 (- \<bar>n\<bar>)"
  by (auto simp: int64_def)

section \<open>Adding and removing copies\<close>

text \<open>
  C6, as the code has it. Take a book whose availability is a 64-bit integer and a
  count that is one. \<^verbatim>\<open>add\<close> and \<^verbatim>\<open>remove\<close>, called by the administrator with an
  ISBN free of quotes, move the availability of the book by exactly the delta (\<open>count\<close>
  for \<^verbatim>\<open>add\<close>, minus the absolute value of \<open>count\<close> for \<^verbatim>\<open>remove\<close>), whenever the
  result is a 64-bit integer too. Nothing clamps the result: a removal larger than the
  current availability leaves it negative.
\<close>

theorem add_no_clamp:
  assumes "copies s i = Some a" and "int64 a" and "int64 n" and "plain i"
  shows "(int64 (a + n) \<longrightarrow>
            copies (fst (add cfg s (ADMIN_USER cfg) i n)) i = Some (a + n))
     \<and> (int64 (a - \<bar>n\<bar>) \<longrightarrow>
            copies (fst (remove cfg s (ADMIN_USER cfg) i n)) i = Some (a - \<bar>n\<bar>))
     \<and> (int64 (a - \<bar>n\<bar>) \<and> a < \<bar>n\<bar> \<longrightarrow>
            (\<exists>a'. copies (fst (remove cfg s (ADMIN_USER cfg) i n)) i = Some a' \<and> a' < 0))"
  using assms int64_minus_abs [of n]
  by (simp add: remove_def fst_add copies_add_available sum_int64_copies)

theorem add_no_clamp_witness:
  "copies db0 ''9780441013593'' = Some 1 \<and> int64 1 \<and> int64 5 \<and> plain ''9780441013593''
   \<and> int64 (1 - \<bar>5\<bar>) \<and> (1::int) < \<bar>5\<bar>
   \<and> copies (fst (remove cfg0 db0 1 ''9780441013593'' 5)) ''9780441013593'' = Some (- 4)"
proof -
  have a: "copies db0 ''9780441013593'' = Some 1"
    by (simp add: copies_def db0_def dune_def)
  have b: "int64 1" "int64 5" "int64 (1 - \<bar>5\<bar>)"
    by (simp_all add: int64_def)
  have c: "plain ''9780441013593''"
    by (simp add: plain_def)
  from add_no_clamp [OF a b(1) b(2) c, of cfg0] b(3)
  have "copies (fst (remove cfg0 db0 (ADMIN_USER cfg0) ''9780441013593'' 5)) ''9780441013593''
          = Some (1 - \<bar>5\<bar>)"
    by blast
  then have "copies (fst (remove cfg0 db0 1 ''9780441013593'' 5)) ''9780441013593'' = Some (- 4)"
    by (simp add: cfg0_def)
  with a b c show ?thesis by simp
qed

text \<open>C6 as the spec states it fails: with one copy available, removing five leaves
  \<open>- 4\<close>, not \<open>0\<close>.\<close>

theorem remove_clamp_counterexample:
  "copies db0 ''9780441013593'' = Some 1
   \<and> copies (fst (remove cfg0 db0 1 ''9780441013593'' 5)) ''9780441013593'' = Some (- 4)
   \<and> copies (fst (remove cfg0 db0 1 ''9780441013593'' 5)) ''9780441013593'' \<noteq> Some 0"
  by (simp add: copies_def remove_def fst_add sum_int64_def int64_def cfg0_def db0_def dune_def
      books_add_available)

text \<open>
  C10. \<^verbatim>\<open>remove\<close> hands minus the absolute value of its count to \<^verbatim>\<open>add\<close>. So, whoever
  calls it and whatever the sign of the count, no book's availability goes up. And
  when the administrator calls it with an ISBN free of quotes, the availability of the
  book goes down by the absolute value of the count, as long as the subtraction stays
  within 64-bit integers; past them SQLite computes in floating point and the code
  falls short of the claim.
\<close>

theorem remove_never_increases:
  "remove cfg s caller i n = add cfg s caller i (- \<bar>n\<bar>)
   \<and> (\<forall>j a. copies s j = Some a \<longrightarrow>
         (\<exists>a'. copies (fst (remove cfg s caller i n)) j = Some a' \<and> a' \<le> a))
   \<and> (caller = ADMIN_USER cfg \<and> plain i \<and> sum_int64 s i (- \<bar>n\<bar>) \<longrightarrow>
         copies (fst (remove cfg s caller i n)) i = map_option (\<lambda>a. a - \<bar>n\<bar>) (copies s i))"
  by (auto simp: remove_def fst_add copies_add_available)

theorem remove_never_increases_witness:
  "sum_int64 (fst (add cfg0 db0 1 ''9780441013593'' 4)) ''9780441013593'' (- \<bar>3\<bar>)
   \<and> plain ''9780441013593''
   \<and> copies (fst (add cfg0 db0 1 ''9780441013593'' 4)) ''9780441013593'' = Some 5
   \<and> copies (fst (remove cfg0 (fst (add cfg0 db0 1 ''9780441013593'' 4)) 1 ''9780441013593'' 3))
        ''9780441013593'' = Some 2
   \<and> copies (fst (remove cfg0 (fst (add cfg0 db0 1 ''9780441013593'' 4)) 1 ''9780441013593'' (- 3)))
        ''9780441013593'' = Some 2"
proof -
  let ?s = "fst (add cfg0 db0 1 ''9780441013593'' 4)"
  have s: "?s = db0\<lparr>books := [''9780441013593'' \<mapsto> dune\<lparr>available := 5\<rparr>]\<rparr>"
    by (simp add: fst_add sum_int64_def int64_def add_available_def cfg0_def db0_def dune_def)
  have c: "copies ?s ''9780441013593'' = Some 5"
    by (simp add: s copies_def)
  have g: "sum_int64 ?s ''9780441013593'' (- \<bar>3\<bar>)" "sum_int64 ?s ''9780441013593'' (- \<bar>- 3\<bar>)"
    by (simp_all add: sum_int64_copies [OF c] int64_def)
  have p: "plain ''9780441013593''"
    by (simp add: plain_def)
  have a: "1 = ADMIN_USER cfg0"
    by (simp add: cfg0_def)
  from remove_never_increases [of cfg0 ?s 1 "''9780441013593''" 3, THEN conjunct2, THEN conjunct2]
    a p g(1) c
  have r1: "copies (fst (remove cfg0 ?s 1 ''9780441013593'' 3)) ''9780441013593'' = Some 2"
    by simp
  from remove_never_increases
    [of cfg0 ?s 1 "''9780441013593''" "- 3", THEN conjunct2, THEN conjunct2] a p g(2) c
  have r2: "copies (fst (remove cfg0 ?s 1 ''9780441013593'' (- 3))) ''9780441013593'' = Some 2"
    by simp
  from g(1) p c r1 r2 show ?thesis by blast
qed

section \<open>Returning a book\<close>

lemma close_loans_none:
  "\<forall>l \<in> set ls. \<not> P l \<Longrightarrow> close_loans P now ls = ls"
  by (induction ls) (simp_all add: close_loans_def)

lemma filter_close_loans:
  "filter (\<lambda>l. userid l = uid \<and> isbn l = i \<and> \<not> returned l)
     (close_loans (\<lambda>l. isbn l = i \<and> userid l = uid) now ls) = []"
  by (induction ls) (simp_all add: close_loans_def)

lemma return_book_admin:
  "return_book cfg s (ADMIN_USER cfg) i uid now =
     ((add_available s i 1)
        \<lparr>loans := close_loans (\<lambda>l. isbn l = i \<and> userid l = uid) now (loans s)\<rparr>,
      Inr [(Here, BookReturned)])"
  by (simp add: return_book_def auth_check_admin respond_def)




section \<open>Banning and unbanning\<close>

lemma dom_users_set_banned: "dom (users (set_banned s uid v)) = dom (users s)"
  by (auto simp: set_banned_def split: option.splits if_splits)

lemma set_banned_unknown: "users s uid = None \<Longrightarrow> set_banned s uid v = s"
  by (simp add: set_banned_def)

lemma fst_ban:
  "fst (ban cfg s caller uid) = (if caller = ADMIN_USER cfg then set_banned s uid True else s)"
  by (simp add: ban_def auth_check_def)

lemma fst_unban:
  "fst (unban cfg s caller uid) = (if caller = ADMIN_USER cfg then set_banned s uid False else s)"
  by (simp add: unban_def auth_check_def)

text \<open>
  C8, as the code has it. For a user without a row, \<^verbatim>\<open>ban\<close> and \<^verbatim>\<open>unban\<close> change
  nothing at all, and yet answer the administrator with the same "User banned." and
  "User unbanned." as for a known user: there is no failure. For any user and any
  caller they leave the set of user rows as it is, so none is created.
\<close>

theorem ban_unknown_user:
  "(users s uid = None \<longrightarrow>
      fst (ban cfg s caller uid) = s \<and> fst (unban cfg s caller uid) = s
      \<and> snd (ban cfg s (ADMIN_USER cfg) uid) = Inr [(Admin, UserBanned)]
      \<and> snd (unban cfg s (ADMIN_USER cfg) uid) = Inr [(Admin, UserUnbanned)])
   \<and> dom (users (fst (ban cfg s caller uid))) = dom (users s)
   \<and> dom (users (fst (unban cfg s caller uid))) = dom (users s)"
  by (simp add: fst_ban fst_unban dom_users_set_banned set_banned_unknown)
     (simp add: ban_def unban_def auth_check_admin respond_def)

theorem ban_unknown_user_witness:
  "users db0 99 = None \<and> fst (ban cfg0 db0 1 99) = db0 \<and> fst (unban cfg0 db0 1 99) = db0
   \<and> dom (users (fst (ban cfg0 db0 1 99))) = {}"
  using ban_unknown_user [of db0 99 cfg0 1]
  by (simp add: db0_def)

text \<open>C8 as the spec states it fails: banning the unknown user 99 is answered exactly
  as banning a known one.\<close>

theorem ban_not_found_counterexample:
  "users db0 99 = None
   \<and> snd (ban cfg0 db0 1 99) = Inr [(Admin, UserBanned)]
   \<and> snd (ban cfg0 (db0\<lparr>users := [99 \<mapsto> ann]\<rparr>) 1 99) = Inr [(Admin, UserBanned)]
   \<and> snd (unban cfg0 db0 1 99) = Inr [(Admin, UserUnbanned)]"
  by (simp add: ban_def unban_def auth_check_def respond_def cfg0_def db0_def)

section \<open>Borrowing\<close>

lemma borrow_banned:
  "is_banned s u \<Longrightarrow>
   borrow cfg s u usr i now now'
     = (s, Inr [(Here, BannedFromBorrowing), (Here, MessageTheAdmin)])"
  by (auto simp: is_banned_def borrow_def respond_def split: option.splits)

lemma with_user_simps [simp]:
  "loans (with_user s u usr) = loans s" "books (with_user s u usr) = books s"
  "foreign_keys (with_user s u usr) = foreign_keys s"
  by (simp_all add: with_user_def split: option.splits)

lemma unique_loan_with_user [simp]: "unique_loan (with_user s u usr) v i = unique_loan s v i"
  by (simp add: unique_loan_def)

lemma current_loans_with_user [simp]: "current_loans (with_user s u usr) v = current_loans s v"
  by (simp add: current_loans_def)

lemma select_available_with_user [simp]:
  "select_available (with_user s u usr) i = select_available s i"
  by (simp add: select_available_def)

lemma borrow_not_banned:
  "\<not> is_banned s u \<Longrightarrow> users s u = None \<longrightarrow> plain usr \<Longrightarrow>
   borrow cfg s u usr i now now'
     = borrow_checks cfg (with_user s u usr) u usr i now now' (greeting s u)"
  by (auto simp: is_banned_def borrow_def with_user_def greeting_def split: option.splits)

lemma borrow_checks_duplicate:
  "plain i \<Longrightarrow> unique_loan s u i \<noteq> 0 \<Longrightarrow>
   borrow_checks cfg s u usr i now now' ms = (s, Inr (map (Pair DM) (ms @ [AlreadyOnLoan])))"
  by (simp add: borrow_checks_def respond_def)

lemma borrow_checks_limit:
  "plain i \<Longrightarrow> unique_loan s u i = 0 \<Longrightarrow> MAX_LOANS cfg \<le> int (current_loans s u) \<Longrightarrow>
   borrow_checks cfg s u usr i now now' ms
     = (s, Inr (map (Pair DM) (ms @ [LoanLimitReached])))"
  by (simp add: borrow_checks_def respond_def)

lemma select_available_None:
  "select_available s i = None \<longleftrightarrow> (\<forall>b. books s i = Some b \<longrightarrow> available b < 1)"
  by (auto simp: select_available_def split: option.splits)

lemma borrow_checks_unavailable:
  "plain i \<Longrightarrow> unique_loan s u i = 0 \<Longrightarrow> int (current_loans s u) < MAX_LOANS cfg \<Longrightarrow>
   \<forall>b. books s i = Some b \<longrightarrow> available b < 1 \<Longrightarrow>
   borrow_checks cfg s u usr i now now' ms = (s, Inr (map (Pair DM) (ms @ [NotAvailable])))"
  by (simp add: borrow_checks_def respond_def select_available_None [THEN iffD2])

lemma borrow_checks_success:
  "plain i \<Longrightarrow> unique_loan s u i = 0 \<Longrightarrow> int (current_loans s u) < MAX_LOANS cfg \<Longrightarrow>
   books s i = Some b \<Longrightarrow> 1 \<le> available b \<Longrightarrow> int64 (available b) \<Longrightarrow>
   days_later now' (LOAN_PERIOD cfg) = Inr estr \<Longrightarrow>
   borrow_checks cfg s u usr i now now' ms =
     (s\<lparr>books := (books s)(i \<mapsto> b\<lparr>available := available b - 1\<rparr>),
        loans := loans s @ [new_loan u i now estr]\<rparr>,
      Inr ([(Admin, NewLoanFrom usr), (Admin, IsbnText i)]
           @ map (Pair DM) (ms @ [BookIsYours, BorrowMessage])))"
  by (simp add: borrow_checks_def respond_def select_available_def take_copy_def
      insert_loan_def)

lemma borrow_checks_overflow:
  "plain i \<Longrightarrow> unique_loan s u i = 0 \<Longrightarrow> int (current_loans s u) < MAX_LOANS cfg \<Longrightarrow>
   books s i = Some b \<Longrightarrow> 1 \<le> available b \<Longrightarrow> int64 (available b) \<Longrightarrow>
   days_later now' (LOAN_PERIOD cfg) = Inl e \<Longrightarrow>
   borrow_checks cfg s u usr i now now' ms =
     (s\<lparr>books := (books s)(i \<mapsto> b\<lparr>available := available b - 1\<rparr>)\<rparr>, Inl e)"
  by (simp add: borrow_checks_def select_available_def take_copy_def)

lemma days_later_Inr:
  "days_later t n = Inr estr \<Longrightarrow> estr = t + n * DAY"
  by (auto simp: days_later_def timedelta_def plus_timedelta_def split: if_splits)

lemma covered_borrow:
  "covered cfg s (Borrow u usr i now now') \<Longrightarrow>
   plain i \<and> (users s u = None \<longrightarrow> plain usr) \<and> (\<forall>b. books s i = Some b \<longrightarrow> int64 (available b))"
  by (auto simp: copies_def split: option.splits)

text \<open>
  C4, as the code has it. Take a borrow that the model covers (an ISBN free of quotes,
  for a user without a row a name free of quotes, an availability within 64-bit
  integers). \<^verbatim>\<open>borrow\<close> makes its checks in a fixed order and stops at the first that
  fails: a banned user is told so and nothing changes; else an active loan of the same
  book by the user gives "already on loan"; else a user at \<^verbatim>\<open>MAX_LOANS\<close> gives "loan
  limit"; else a book that is absent or has less than one available copy gives "not
  available", the same reply in both cases; else the loan is granted, provided the due
  date is a date that \<^verbatim>\<open>datetime\<close> has. A failing check leaves books and loans as they
  were (a first-time user is welcomed and keeps the row created for them).
\<close>

theorem borrow_check_order:
  assumes "borrow cfg s u usr i now now' = (s', out)"
    and "covered cfg s (Borrow u usr i now now')"
  shows "(is_banned s u \<longrightarrow>
            out = Inr [(Here, BannedFromBorrowing), (Here, MessageTheAdmin)] \<and> s' = s)
     \<and> (\<not> is_banned s u \<and> unique_loan s u i \<noteq> 0 \<longrightarrow>
            out = Inr (map (Pair DM) (greeting s u @ [AlreadyOnLoan]))
            \<and> books s' = books s \<and> loans s' = loans s)
     \<and> (\<not> is_banned s u \<and> unique_loan s u i = 0 \<and> MAX_LOANS cfg \<le> int (current_loans s u) \<longrightarrow>
            out = Inr (map (Pair DM) (greeting s u @ [LoanLimitReached]))
            \<and> books s' = books s \<and> loans s' = loans s)
     \<and> (\<not> is_banned s u \<and> unique_loan s u i = 0 \<and> int (current_loans s u) < MAX_LOANS cfg
          \<and> (books s i = None \<or> (\<exists>b. books s i = Some b \<and> available b < 1)) \<longrightarrow>
            out = Inr (map (Pair DM) (greeting s u @ [NotAvailable]))
            \<and> books s' = books s \<and> loans s' = loans s)
     \<and> (\<not> is_banned s u \<and> unique_loan s u i = 0 \<and> int (current_loans s u) < MAX_LOANS cfg
          \<and> (\<exists>b. books s i = Some b \<and> 1 \<le> available b)
          \<and> (\<exists>estr. days_later now' (LOAN_PERIOD cfg) = Inr estr) \<longrightarrow>
            out = Inr ([(Admin, NewLoanFrom usr), (Admin, IsbnText i)]
                       @ map (Pair DM) (greeting s u @ [BookIsYours, BorrowMessage])))"
proof (intro conjI impI)
  assume "is_banned s u"
  with assms show "out = Inr [(Here, BannedFromBorrowing), (Here, MessageTheAdmin)]" "s' = s"
    by (simp_all add: borrow_banned)
next
  note cov = covered_borrow [OF assms(2)]
  assume h: "\<not> is_banned s u \<and> unique_loan s u i \<noteq> 0"
  with assms(1) cov
  have "(s', out) = (with_user s u usr, Inr (map (Pair DM) (greeting s u @ [AlreadyOnLoan])))"
    by (simp add: borrow_not_banned borrow_checks_duplicate)
  then show "out = Inr (map (Pair DM) (greeting s u @ [AlreadyOnLoan]))"
    "books s' = books s" "loans s' = loans s" by simp_all
next
  note cov = covered_borrow [OF assms(2)]
  assume h: "\<not> is_banned s u \<and> unique_loan s u i = 0
               \<and> MAX_LOANS cfg \<le> int (current_loans s u)"
  with assms(1) cov
  have "(s', out)
          = (with_user s u usr, Inr (map (Pair DM) (greeting s u @ [LoanLimitReached])))"
    by (simp add: borrow_not_banned borrow_checks_limit)
  then show "out = Inr (map (Pair DM) (greeting s u @ [LoanLimitReached]))"
    "books s' = books s" "loans s' = loans s" by simp_all
next
  note cov = covered_borrow [OF assms(2)]
  assume h: "\<not> is_banned s u \<and> unique_loan s u i = 0 \<and> int (current_loans s u) < MAX_LOANS cfg
          \<and> (books s i = None \<or> (\<exists>b. books s i = Some b \<and> available b < 1))"
  then have "\<forall>b. books (with_user s u usr) i = Some b \<longrightarrow> available b < 1" by auto
  with h assms(1) cov
  have "(s', out) = (with_user s u usr, Inr (map (Pair DM) (greeting s u @ [NotAvailable])))"
    by (simp add: borrow_not_banned borrow_checks_unavailable)
  then show "out = Inr (map (Pair DM) (greeting s u @ [NotAvailable]))"
    "books s' = books s" "loans s' = loans s" by simp_all
next
  note cov = covered_borrow [OF assms(2)]
  assume h: "\<not> is_banned s u \<and> unique_loan s u i = 0 \<and> int (current_loans s u) < MAX_LOANS cfg
          \<and> (\<exists>b. books s i = Some b \<and> 1 \<le> available b)
          \<and> (\<exists>estr. days_later now' (LOAN_PERIOD cfg) = Inr estr)"
  then obtain b estr where b: "books (with_user s u usr) i = Some b" "1 \<le> available b"
    and e: "days_later now' (LOAN_PERIOD cfg) = Inr estr" by auto
  from b cov have i64: "int64 (available b)" by simp
  from cov have p: "plain i" by simp
  from h have "unique_loan (with_user s u usr) u i = 0"
    "int (current_loans (with_user s u usr) u) < MAX_LOANS cfg" by simp_all
  from borrow_checks_success [OF p this b i64 e] h assms(1) cov
  show "out = Inr ([(Admin, NewLoanFrom usr), (Admin, IsbnText i)]
                       @ map (Pair DM) (greeting s u @ [BookIsYours, BorrowMessage]))"
    by (simp add: borrow_not_banned)
qed

lemma greeting_no_grant: "BookIsYours \<notin> set (greeting s u)"
  by (simp add: greeting_def split: option.splits)


lemma plain_isbn0: "plain ''9780441013593''"
  by (simp add: plain_def)

lemma plain_ann: "plain ''ann''"
  by (simp add: plain_def)

lemma days_later_14: "days_later 600000001 14 = Inr 1210200000001"
  by (simp add: days_later_def timedelta_def plus_timedelta_def datetime_end_def DAY_def)

lemma borrow_db0:
  "borrow cfg0 db0 7 ''ann'' ''9780441013593'' 599999990 600000001 =
     (shelf1,
      Inr [(Admin, NewLoanFrom ''ann''), (Admin, IsbnText ''9780441013593''),
           (DM, Welcome 7), (DM, BookIsYours), (DM, BorrowMessage)])"
  by (simp add: borrow_def borrow_checks_def plain_isbn0 plain_ann unique_loan_def
      current_loans_def select_available_def take_copy_def insert_loan_def new_loan_def
      respond_def int64_def days_later_14 cfg0_def db0_def dune_def ann_def shelf1_def
      shelf_loan_def)

lemma covered_borrow_db0:
  "covered cfg0 db0 (Borrow 7 ''ann'' ''9780441013593'' 599999990 600000001)"
  by (simp add: plain_isbn0 plain_ann copies_def int64_def db0_def dune_def)



lemmas example_defs = cfg0_def db0_def dune_def ann_def open_loan_def old_loan_def
  banned_db_def lent_db_def full_db_def empty_db_def out_db_def

lemma pair_collapse: "f = (fst f, snd f)"
  by simp

lemma covered_examples:
  "covered cfg0 banned_db (Borrow 7 ''ann'' ''9780441013593'' 700000001 700000005)"
  "covered cfg0 lent_db (Borrow 7 ''ann'' ''9780441013593'' 700000001 700000005)"
  "covered cfg0 full_db (Borrow 7 ''ann'' ''9780441013593'' 700000001 700000005)"
  "covered cfg0 empty_db (Borrow 7 ''ann'' ''9780441013593'' 700000001 700000005)"
  "covered cfg0 out_db (Borrow 7 ''ann'' ''9780441013593'' 700000001 700000005)"
  "covered cfg0 db0 (Borrow 7 ''ann'' ''9780441013593'' 700000001 700000005)"
  by (simp_all add: plain_isbn0 plain_ann copies_def int64_def example_defs)

lemma days_later_example: "days_later 700000005 14 = Inr 1210300000005"
  by (simp add: days_later_def timedelta_def plus_timedelta_def datetime_end_def DAY_def)

theorem borrow_check_order_witness:
  "snd (borrow cfg0 banned_db 7 ''ann'' ''9780441013593'' 700000001 700000005)
     = Inr [(Here, BannedFromBorrowing), (Here, MessageTheAdmin)]
   \<and> snd (borrow cfg0 lent_db 7 ''ann'' ''9780441013593'' 700000001 700000005)
     = Inr [(DM, AlreadyOnLoan)]
   \<and> snd (borrow cfg0 full_db 7 ''ann'' ''9780441013593'' 700000001 700000005)
     = Inr [(DM, LoanLimitReached)]
   \<and> snd (borrow cfg0 empty_db 7 ''ann'' ''9780441013593'' 700000001 700000005)
     = Inr [(DM, NotAvailable)]
   \<and> snd (borrow cfg0 out_db 7 ''ann'' ''9780441013593'' 700000001 700000005)
     = Inr [(DM, NotAvailable)]
   \<and> snd (borrow cfg0 db0 7 ''ann'' ''9780441013593'' 700000001 700000005)
     = Inr [(Admin, NewLoanFrom ''ann''), (Admin, IsbnText ''9780441013593''),
            (DM, Welcome 7), (DM, BookIsYours), (DM, BorrowMessage)]"
  using
    borrow_check_order [OF pair_collapse covered_examples(1)]
    borrow_check_order [OF pair_collapse covered_examples(2)]
    borrow_check_order [OF pair_collapse covered_examples(3)]
    borrow_check_order [OF pair_collapse covered_examples(4)]
    borrow_check_order [OF pair_collapse covered_examples(5)]
    borrow_check_order [OF pair_collapse covered_examples(6)]
  by (simp add: is_banned_def unique_loan_def current_loans_def greeting_def
      days_later_example example_defs)

text \<open>C4 as the spec states it fails: a missing book and a book with no copy left get
  the same reply, so no distinct "book not found" failure exists.\<close>

theorem not_found_unavailable_counterexample:
  "books empty_db ''9780441013593'' = None
   \<and> copies out_db ''9780441013593'' = Some 0
   \<and> snd (borrow cfg0 empty_db 7 ''ann'' ''9780441013593'' 700000001 700000005)
     = Inr [(DM, NotAvailable)]
   \<and> snd (borrow cfg0 out_db 7 ''ann'' ''9780441013593'' 700000001 700000005)
     = Inr [(DM, NotAvailable)]"
  by (simp add: borrow_def borrow_checks_def plain_isbn0 unique_loan_def current_loans_def
      select_available_def respond_def copies_def example_defs)

section \<open>Due dates\<close>

lemma days_floor: "days d * DAY \<le> d \<and> d < (days d + 1) * DAY"
proof -
  have pos: "0 < DAY" by (simp add: DAY_def)
  have "d = days d * DAY + d mod DAY" by (simp add: days_def)
  moreover have "0 \<le> d mod DAY" "d mod DAY < DAY" using pos by simp_all
  ultimately show ?thesis by (simp add: algebra_simps)
qed

lemma days_examples: "days (t - t) + 1 = 1" "days (t - DAY - t) + 1 = 0"
  by (simp_all add: days_def DAY_def)

lemma due_books_parsed:
  "\<forall>(i, e) \<in> set res. plain i \<and> e mod 1000000 \<noteq> 0 \<Longrightarrow>
   due_books s clock k res =
     Inr (map (\<lambda>(n, i, e). (map_option (Pair i) (books s i), date e, days (e - clock n) + 1))
            (enumerate k res))"
  by (induction res arbitrary: k) (auto simp: strptime_def)

lemma enumerate_map: "enumerate k (map g xs) = map (\<lambda>(n, x). (n, g x)) (enumerate k xs)"
  by (induction xs arbitrary: k) simp_all

lemma the_map_Pair: "x \<noteq> None \<Longrightarrow> the (map_option (Pair i) x) = (i, the x)"
  by auto

lemma format_book_records_found:
  "\<forall>(bo, d, r) \<in> set rows. bo \<noteq> None \<Longrightarrow>
   format_book_records rows =
     Inr (map (\<lambda>(bo, d, r).
            DueLine (title (snd (the bo))) (series (snd (the bo))) (authors (snd (the bo)))
              (fst (the bo)) d (if r \<le> 0 then Overdue \<bar>r\<bar> else Remaining r)) rows)"
  by (induction rows rule: format_book_records.induct) auto

text \<open>
  What \<^verbatim>\<open>due\<close> answers when it gets through: one line for each active loan of the
  user, in the order of the table, the line of loan number \<open>n\<close> carrying
  \<open>days (due - clock n) + 1\<close> as the days remaining, where \<open>days\<close> is the floor of the
  difference in days (\<open>days_floor\<close>), and saying "overdue" exactly when that number is
  at most 0. It gets through when each of these loans has a book row, an ISBN free of
  quotes and a due date with a fraction of a second.
\<close>

lemma due_report:
  assumes ok: "\<forall>l \<in> set (loans s). userid l = u \<and> \<not> returned l \<longrightarrow>
                 plain (isbn l) \<and> estrdate l mod 1000000 \<noteq> 0 \<and> books s (isbn l) \<noteq> None"
    and ne: "filter (\<lambda>l. userid l = u \<and> \<not> returned l) (loans s) \<noteq> []"
  shows "due s u clock =
     (s, Inr (map (\<lambda>(n, l).
                 (DM, DueLine (title (the (books s (isbn l)))) (series (the (books s (isbn l))))
                     (authors (the (books s (isbn l)))) (isbn l) (date (estrdate l))
                     (if days (estrdate l - clock n) + 1 \<le> 0
                      then Overdue \<bar>days (estrdate l - clock n) + 1\<bar>
                      else Remaining (days (estrdate l - clock n) + 1))))
               (enumerate 0 (filter (\<lambda>l. userid l = u \<and> \<not> returned l) (loans s)))))"
proof -
  let ?act = "filter (\<lambda>l. userid l = u \<and> \<not> returned l) (loans s)"
  let ?res = "due_query s u"
  let ?row = "\<lambda>(n, i, e). (map_option (Pair i) (books s i), date e, days (e - clock n) + 1)"
  let ?fmt = "\<lambda>(bo, d, r).
            DueLine (title (snd (the bo))) (series (snd (the bo))) (authors (snd (the bo)))
              (fst (the bo)) d (if r \<le> 0 then Overdue \<bar>r\<bar> else Remaining r)"
  have res: "?res = map (\<lambda>l. (isbn l, estrdate l)) ?act"
    by (simp add: due_query_def)
  have "\<forall>(i, e) \<in> set ?res. plain i \<and> e mod 1000000 \<noteq> 0"
    using ok by (auto simp: res)
  then have bs: "due_books s clock 0 ?res = Inr (map ?row (enumerate 0 ?res))"
    by (rule due_books_parsed)
  have found: "\<exists>b. books s (isbn (?act ! a)) = Some b" if "a < length ?act" for a
  proof -
    from that have "?act ! a \<in> set ?act" by (rule nth_mem)
    with ok show ?thesis by auto
  qed
  then have "\<forall>(bo, d, r) \<in> set (map ?row (enumerate 0 ?res)). bo \<noteq> None"
    by (auto simp: res enumerate_map in_set_enumerate_eq)
  then have fm: "format_book_records (map ?row (enumerate 0 ?res))
                   = Inr (map ?fmt (map ?row (enumerate 0 ?res)))"
    by (rule format_book_records_found)
  have len: "length ?res \<noteq> 0"
    using ne by (simp add: res)
  have "due s u clock = (s, Inr (respond (map ?fmt (map ?row (enumerate 0 ?res))) True False))"
    using len by (simp add: due_def Let_def bs fm)
  also have "respond (map ?fmt (map ?row (enumerate 0 ?res))) True False
     = map (\<lambda>(n, l).
                 (DM, DueLine (title (the (books s (isbn l)))) (series (the (books s (isbn l))))
                     (authors (the (books s (isbn l)))) (isbn l) (date (estrdate l))
                     (if days (estrdate l - clock n) + 1 \<le> 0
                      then Overdue \<bar>days (estrdate l - clock n) + 1\<bar>
                      else Remaining (days (estrdate l - clock n) + 1))))
           (enumerate 0 ?act)"
    using found by (auto simp: respond_def res enumerate_map in_set_enumerate_eq the_map_Pair)
  finally show ?thesis .
qed

lemma due_report_example:
  "due due_db 7 clock0 =
     (due_db, Inr [(DM, DueLine ''Dune'' None ''Frank Herbert'' ''9780441013593'' 14
                          (Remaining 1))])"
  by (simp add: due_def due_query_def strptime_def plain_def respond_def days_def date_def
      DAY_def clock0_def due_db_def db0_def dune_def open_loan_def old_loan_def)

lemma days_later_whole: "days_later 600000000 14 = Inr 1210200000000"
  by (simp add: days_later_def timedelta_def plus_timedelta_def datetime_end_def DAY_def)

text \<open>
  C9. The rule of the claim is the rule of the code (\<open>due_report\<close>), but the code does
  not always get as far as reporting. A loan is granted with the clock at a whole second
  when the due date is taken: \<^verbatim>\<open>str\<close> writes that due date without a fraction, and
  from then on \<^verbatim>\<open>due\<close> stops with the \<^verbatim>\<open>ValueError\<close> of \<^verbatim>\<open>strptime\<close> for this user
  and reports no days remaining for the loan.
\<close>

theorem due_whole_second_raises:
  "borrow cfg0 db0 7 ''ann'' ''9780441013593'' 599999990 600000000 =
     (whole_db,
      Inr [(Admin, NewLoanFrom ''ann''), (Admin, IsbnText ''9780441013593''),
           (DM, Welcome 7), (DM, BookIsYours), (DM, BorrowMessage)])
   \<and> unique_loan whole_db 7 ''9780441013593'' = 1
   \<and> due whole_db 7 clock0 = (whole_db, Inl ValueError)"
proof -
  have "borrow cfg0 db0 7 ''ann'' ''9780441013593'' 599999990 600000000 =
     (whole_db,
      Inr [(Admin, NewLoanFrom ''ann''), (Admin, IsbnText ''9780441013593''),
           (DM, Welcome 7), (DM, BookIsYours), (DM, BorrowMessage)])"
    by (simp add: borrow_def borrow_checks_def plain_isbn0 plain_ann unique_loan_def
        current_loans_def select_available_def take_copy_def insert_loan_def new_loan_def
        respond_def int64_def days_later_whole cfg0_def db0_def dune_def ann_def whole_db_def)
  moreover have "unique_loan whole_db 7 ''9780441013593'' = 1"
    by (simp add: unique_loan_def whole_db_def)
  moreover have "due whole_db 7 clock0 = (whole_db, Inl ValueError)"
    by (simp add: due_def due_query_def strptime_def plain_isbn0 whole_db_def)
  ultimately show ?thesis by blast
qed

section \<open>Books and loans after each command\<close>

lemma books_borrow_checks:
  "books (fst (borrow_checks cfg s u usr i now now' ms)) j = Some b' \<Longrightarrow>
   \<exists>b. books s j = Some b
     \<and> (b' = b \<or> (1 \<le> available b \<and> b' = b\<lparr>available := available b - 1\<rparr>))"
  by (auto simp: borrow_checks_def select_available_def take_copy_def insert_loan_def
      split: if_splits option.splits sum.splits)

text \<open>\<^verbatim>\<open>borrow\<close> ends at once (banned user, name with a quote) or goes on to its checks
  with the row of the user in place.\<close>

lemma borrow_cases:
  "(\<exists>out. borrow cfg s u usr i now now' = (s, out))
   \<or> borrow cfg s u usr i now now'
       = borrow_checks cfg (with_user s u usr) u usr i now now' (greeting s u)"
  by (auto simp: borrow_def with_user_def greeting_def split: option.splits)

lemma books_borrow:
  assumes "books (fst (borrow cfg s u usr i now now')) j = Some b'"
  shows "\<exists>b. books s j = Some b
           \<and> (b' = b \<or> (1 \<le> available b \<and> b' = b\<lparr>available := available b - 1\<rparr>))"
  using borrow_cases [of cfg s u usr i now now']
proof
  assume "\<exists>out. borrow cfg s u usr i now now' = (s, out)"
  with assms show ?thesis by auto
next
  assume "borrow cfg s u usr i now now'
            = borrow_checks cfg (with_user s u usr) u usr i now now' (greeting s u)"
  with assms
  have "books (fst (borrow_checks cfg (with_user s u usr) u usr i now now' (greeting s u))) j
          = Some b'"
    by simp
  from books_borrow_checks [OF this] show ?thesis by simp
qed

lemma fst_renew:
  "fst (renew cfg s caller i uid n now) =
     (if caller = ADMIN_USER cfg
      then (case days_later now n of
              Inl e \<Rightarrow> s
            | Inr new_date \<Rightarrow>
                s\<lparr>loans := map (\<lambda>l. if isbn l = i \<and> userid l = uid
                                      then l\<lparr>estrdate := new_date\<rparr> else l) (loans s)\<rparr>)
      else s)"
  by (simp add: renew_def auth_check_def split: sum.splits)

lemma fst_return_book:
  "fst (return_book cfg s caller i uid now) =
     (if caller = ADMIN_USER cfg
      then (add_available s i 1)
             \<lparr>loans := close_loans (\<lambda>l. isbn l = i \<and> userid l = uid) now (loans s)\<rparr>
      else s)"
  by (simp add: return_book_def auth_check_def)

lemma books_delete:
  "books (fst (delete cfg s caller i now)) j = books s j
   \<or> books (fst (delete cfg s caller i now)) j = None"
  by (simp add: delete_def auth_check_def Let_def)

lemma loans_delete:
  "loans (fst (delete cfg s caller i now)) =
     (if caller = ADMIN_USER cfg then close_loans (\<lambda>l. isbn l = i) now (loans s) else loans s)"
  by (simp add: delete_def auth_check_def Let_def)

lemma fst_due: "fst (due s u clock) = s"
  by (simp add: due_def Let_def split: sum.splits)

lemma books_set_banned: "books (set_banned s uid v) = books s"
  by (simp add: set_banned_def split: option.splits)

lemma loans_set_banned: "loans (set_banned s uid v) = loans s"
  by (simp add: set_banned_def split: option.splits)

section \<open>Availability along a run\<close>

lemma nonneg_copies_add_available:
  "nonneg_copies s j \<Longrightarrow>
   (i = j \<longrightarrow> (case copies s i of None \<Rightarrow> True | Some a \<Rightarrow> 0 \<le> a + n)) \<Longrightarrow>
   nonneg_copies (add_available s i n) j"
  by (auto simp: nonneg_copies_def copies_add_available split: option.splits)

lemma nonneg_copies_exec:
  assumes "nonneg_copies s j" "in_stock cfg s c"
  shows "nonneg_copies (exec cfg s c) j"
proof (cases c)
  case (Borrow u usr i now now')
  show ?thesis
  proof (cases "books (exec cfg s c) j")
    case None
    then show ?thesis by (simp add: nonneg_copies_def copies_def)
  next
    case (Some b')
    then have "books (fst (borrow cfg s u usr i now now')) j = Some b'"
      by (simp add: exec_def Borrow)
    from books_borrow [OF this] assms(1) have "0 \<le> available b'"
      by (auto simp: nonneg_copies_def copies_def)
    with Some show ?thesis by (simp add: nonneg_copies_def copies_def)
  qed
next
  case (Due u clock)
  with assms show ?thesis by (simp add: exec_def fst_due)
next
  case (Renew caller i uid n now)
  with assms show ?thesis
    by (simp add: exec_def fst_renew nonneg_copies_def copies_def split: sum.splits)
next
  case (Ban caller uid)
  with assms show ?thesis
    by (simp add: exec_def fst_ban nonneg_copies_def copies_def books_set_banned)
next
  case (Unban caller uid)
  with assms show ?thesis
    by (simp add: exec_def fst_unban nonneg_copies_def copies_def books_set_banned)
next
  case (Add caller i n)
  show ?thesis
  proof (cases "caller = ADMIN_USER cfg \<and> sum_int64 s i n")
    case True
    with assms Add
    have "i = j \<longrightarrow> (case copies s i of None \<Rightarrow> True | Some a \<Rightarrow> 0 \<le> a + n)"
      by auto
    with assms(1) have "nonneg_copies (add_available s i n) j"
      by (rule nonneg_copies_add_available)
    with True Add show ?thesis by (simp add: exec_def fst_add)
  next
    case False
    with assms(1) Add show ?thesis by (auto simp: exec_def fst_add)
  qed
next
  case (Remove caller i n)
  show ?thesis
  proof (cases "caller = ADMIN_USER cfg \<and> sum_int64 s i (- \<bar>n\<bar>)")
    case True
    with assms Remove
    have "i = j \<longrightarrow> (case copies s i of None \<Rightarrow> True | Some a \<Rightarrow> 0 \<le> a + (- \<bar>n\<bar>))"
      by (auto split: option.splits)
    with assms(1) have "nonneg_copies (add_available s i (- \<bar>n\<bar>)) j"
      by (rule nonneg_copies_add_available)
    with True Remove show ?thesis by (simp add: exec_def remove_def fst_add)
  next
    case False
    with assms(1) Remove show ?thesis by (auto simp: exec_def remove_def fst_add)
  qed
next
  case (Delete caller i now)
  from books_delete [of cfg s caller i now j] assms(1) Delete show ?thesis
    by (auto simp: exec_def nonneg_copies_def copies_def)
next
  case (Return caller i uid now)
  from assms(1) have "i = j \<longrightarrow> (case copies s i of None \<Rightarrow> True | Some a \<Rightarrow> 0 \<le> a + 1)"
    by (auto simp: nonneg_copies_def split: option.splits)
  with assms(1) have "nonneg_copies (add_available s i 1) j"
    by (rule nonneg_copies_add_available)
  then have "nonneg_copies ((add_available s i 1)
      \<lparr>loans := close_loans (\<lambda>l. isbn l = i \<and> userid l = uid) now (loans s)\<rparr>) j"
    by (simp add: nonneg_copies_def copies_def)
  with assms(1) show ?thesis by (simp add: exec_def Return fst_return_book)
qed

lemma stocked_take: "stocked cfg s cs \<Longrightarrow> stocked cfg s (take n cs)"
proof (induction cs arbitrary: s n)
  case Nil
  then show ?case by simp
next
  case (Cons c cs)
  then show ?case by (cases n) simp_all
qed

lemma nonneg_copies_run:
  "nonneg_copies s i \<Longrightarrow> stocked cfg s cs \<Longrightarrow> nonneg_copies (run cfg s cs) i"
proof (induction cs arbitrary: s)
  case Nil
  then show ?case by simp
next
  case (Cons c cs)
  then show ?case by (simp add: nonneg_copies_exec)
qed

text \<open>
  C1, as the code has it. Take a book whose availability is not negative and run any
  commands (borrow, return, add, remove and all the others) that the model covers (texts
  free of quotes, arithmetic within 64-bit integers) and such that the administrator's
  \<^verbatim>\<open>add\<close> and \<^verbatim>\<open>remove\<close> never take more copies away than their book has at that
  moment. Then the availability of the book is not negative after any transaction of
  the run. \<^verbatim>\<open>borrow\<close> and \<^verbatim>\<open>return\<close> need no side condition on the stock; \<^verbatim>\<open>add\<close> and
  \<^verbatim>\<open>remove\<close> do, since nothing clamps them.
\<close>

theorem availability_never_negative:
  assumes "nonneg_copies s i" and "stocked cfg s cs"
  shows "nonneg_copies (run cfg s (take n cs)) i"
  using assms by (simp add: nonneg_copies_run stocked_take)

lemma shelf_step1:
  "exec cfg0 db0 (Borrow 7 ''ann'' ''9780441013593'' 599999990 600000001) = shelf1"
  by (simp add: exec_def borrow_db0)


lemma shelf_step2: "exec cfg0 shelf1 (Return 1 ''9780441013593'' 7 700000001) = shelf2"
  by (simp add: exec_def fst_return_book add_available_def close_loans_def shelf1_def shelf2_def
      cfg0_def shelf_loan_def)

lemma shelf_step3: "exec cfg0 shelf2 (Add 1 ''9780441013593'' 2) = shelf3"
  by (simp add: exec_def fst_add sum_int64_def int64_def add_available_def shelf1_def
      shelf2_def shelf3_def cfg0_def dune_def)

lemma shelf_step4: "exec cfg0 shelf3 (Remove 1 ''9780441013593'' (- 3)) = shelf4"
  by (simp add: exec_def remove_def fst_add sum_int64_def int64_def add_available_def
      shelf1_def shelf2_def shelf3_def shelf4_def cfg0_def dune_def)

lemma run_shelf: "run cfg0 db0 shelf_run = shelf4"
  by (simp add: shelf_run_def shelf_step1 shelf_step2 shelf_step3 shelf_step4)


lemma stocked_shelf: "stocked cfg0 db0 shelf_run"
proof -
  have c2: "covered cfg0 shelf1 (Return 1 ''9780441013593'' 7 700000001)"
    by (simp add: plain_isbn0 sum_int64_def int64_def shelf1_def dune_def)
  have c3: "covered cfg0 shelf2 (Add 1 ''9780441013593'' 2)"
    by (simp add: plain_isbn0 sum_int64_def int64_def shelf2_def shelf1_def dune_def)
  have k3: "in_stock cfg0 shelf2 (Add 1 ''9780441013593'' 2)"
    by (simp add: copies_def shelf2_def shelf1_def dune_def)
  have c4: "covered cfg0 shelf3 (Remove 1 ''9780441013593'' (- 3))"
    by (simp add: plain_isbn0 sum_int64_def int64_def shelf3_def shelf2_def shelf1_def
        dune_def)
  have k4: "in_stock cfg0 shelf3 (Remove 1 ''9780441013593'' (- 3))"
    by (simp add: copies_def shelf3_def shelf2_def shelf1_def dune_def)
  have k1: "in_stock cfg0 db0 (Borrow 7 ''ann'' ''9780441013593'' 599999990 600000001)"
    by simp
  have k2: "in_stock cfg0 shelf1 (Return 1 ''9780441013593'' 7 700000001)"
    by simp
  show ?thesis
    unfolding shelf_run_def
    by (simp only: stocked.simps shelf_step1 shelf_step2 shelf_step3 shelf_step4
        covered_borrow_db0 c2 c3 c4 k1 k2 k3 k4 simp_thms)
qed


theorem availability_never_negative_witness:
  "nonneg_copies db0 ''9780441013593'' \<and> stocked cfg0 db0 shelf_run
   \<and> nonneg_copies (run cfg0 db0 (take 3 shelf_run)) ''9780441013593''
   \<and> nonneg_copies (run cfg0 db0 shelf_run) ''9780441013593''
   \<and> copies (run cfg0 db0 shelf_run) ''9780441013593'' = Some 0"
proof -
  have a: "nonneg_copies db0 ''9780441013593''"
    by (simp add: nonneg_copies_def copies_def db0_def dune_def)
  have t: "take 4 shelf_run = shelf_run"
    by (simp add: shelf_run_def)
  from availability_never_negative [OF a stocked_shelf, of 4]
  have b: "nonneg_copies (run cfg0 db0 shelf_run) ''9780441013593''"
    by (simp only: t)
  have c: "copies (run cfg0 db0 shelf_run) ''9780441013593'' = Some 0"
    by (simp add: run_shelf copies_def shelf4_def shelf2_def shelf1_def)
  from a stocked_shelf availability_never_negative [OF a stocked_shelf, of 3] b c
  show ?thesis by blast
qed

lemma shelf_overdrawn:
  "exec cfg0 shelf1 (Remove 1 ''9780441013593'' 3)
     = shelf1\<lparr>books := [''9780441013593'' \<mapsto> dune\<lparr>available := - 3\<rparr>]\<rparr>"
  by (simp add: exec_def remove_def fst_add sum_int64_def int64_def add_available_def
      shelf1_def cfg0_def dune_def)

text \<open>C1 as the spec states it fails: after the only copy is borrowed, removing three
  copies leaves an availability of \<open>- 3\<close>.\<close>

theorem availability_negative_counterexample:
  "nonneg_copies db0 ''9780441013593''
   \<and> copies (run cfg0 db0 [Borrow 7 ''ann'' ''9780441013593'' 599999990 600000001,
                            Remove 1 ''9780441013593'' 3]) ''9780441013593'' = Some (- 3)
   \<and> \<not> nonneg_copies (run cfg0 db0 [Borrow 7 ''ann'' ''9780441013593'' 599999990 600000001,
                                     Remove 1 ''9780441013593'' 3]) ''9780441013593''"
proof -
  have r: "run cfg0 db0 [Borrow 7 ''ann'' ''9780441013593'' 599999990 600000001,
                         Remove 1 ''9780441013593'' 3]
           = shelf1\<lparr>books := [''9780441013593'' \<mapsto> dune\<lparr>available := - 3\<rparr>]\<rparr>"
    by (simp add: shelf_step1 shelf_overdrawn)
  have a: "nonneg_copies db0 ''9780441013593''"
    by (simp add: nonneg_copies_def copies_def db0_def dune_def)
  have c: "copies (shelf1\<lparr>books := [''9780441013593'' \<mapsto> dune\<lparr>available := - 3\<rparr>]\<rparr>)
             ''9780441013593'' = Some (- 3)"
    by (simp add: copies_def)
  then have d: "\<not> nonneg_copies
             (shelf1\<lparr>books := [''9780441013593'' \<mapsto> dune\<lparr>available := - 3\<rparr>]\<rparr>)
             ''9780441013593''"
    by (simp add: nonneg_copies_def)
  from a c d show ?thesis unfolding r by blast
qed

section \<open>The ledger along a run\<close>

lemma loans_borrow_checks:
  "loans (fst (borrow_checks cfg s u usr i now now' ms)) = loans s
   \<or> (\<exists>estr. unique_loan s u i = 0
         \<and> loans (fst (borrow_checks cfg s u usr i now now' ms))
             = loans s @ [new_loan u i now estr])"
  by (auto simp: borrow_checks_def take_copy_def insert_loan_def
      split: option.splits sum.splits)

lemma loans_borrow:
  "loans (fst (borrow cfg s u usr i now now')) = loans s
   \<or> (\<exists>estr. unique_loan s u i = 0
         \<and> loans (fst (borrow cfg s u usr i now now')) = loans s @ [new_loan u i now estr])"
  using borrow_cases [of cfg s u usr i now now']
proof
  assume "\<exists>out. borrow cfg s u usr i now now' = (s, out)"
  then show ?thesis by auto
next
  assume "borrow cfg s u usr i now now'
            = borrow_checks cfg (with_user s u usr) u usr i now now' (greeting s u)"
  with loans_borrow_checks [of cfg "with_user s u usr" u usr i now now' "greeting s u"]
  show ?thesis by simp
qed

text \<open>The loans table after any command: unchanged, one new loan appended by borrow,
  some rows closed, or some due dates replaced.\<close>

lemma loans_exec:
  "loans (exec cfg s c) = loans s
   \<or> (\<exists>u i now estr. unique_loan s u i = 0
         \<and> loans (exec cfg s c) = loans s @ [new_loan u i now estr])
   \<or> (\<exists>P now. loans (exec cfg s c) = close_loans P now (loans s))
   \<or> (\<exists>P e. loans (exec cfg s c)
               = map (\<lambda>l. if P l then l\<lparr>estrdate := e\<rparr> else l) (loans s))"
proof (cases c)
  case (Borrow u usr i now now')
  have "exec cfg s c = fst (borrow cfg s u usr i now now')"
    by (simp add: exec_def Borrow)
  with loans_borrow [of cfg s u usr i now now'] show ?thesis
    by (simp only:) blast
next
  case (Due u clock)
  then show ?thesis by (simp add: exec_def fst_due)
next
  case (Renew caller i uid n now)
  then show ?thesis by (auto simp: exec_def fst_renew split: sum.splits)
next
  case (Ban caller uid)
  then show ?thesis by (simp add: exec_def fst_ban loans_set_banned)
next
  case (Unban caller uid)
  then show ?thesis by (simp add: exec_def fst_unban loans_set_banned)
next
  case (Add caller i n)
  then show ?thesis by (simp add: exec_def fst_add loans_add_available)
next
  case (Remove caller i n)
  then show ?thesis by (simp add: exec_def remove_def fst_add loans_add_available)
next
  case (Delete caller i now)
  then show ?thesis by (auto simp: exec_def loans_delete)
next
  case (Return caller i uid now)
  then show ?thesis by (auto simp: exec_def fst_return_book)
qed

lemma count_close_loans:
  "length (filter (\<lambda>l. userid l = u \<and> isbn l = i \<and> \<not> returned l) (close_loans P now ls))
   \<le> length (filter (\<lambda>l. userid l = u \<and> isbn l = i \<and> \<not> returned l) ls)"
  by (induction ls) (auto simp: close_loans_def)

lemma count_renewed:
  "length (filter (\<lambda>l. userid l = u \<and> isbn l = i \<and> \<not> returned l)
             (map (\<lambda>l. if P l then l\<lparr>estrdate := e\<rparr> else l) ls))
   = length (filter (\<lambda>l. userid l = u \<and> isbn l = i \<and> \<not> returned l) ls)"
  by (induction ls) auto

lemma unique_loan_exec:
  assumes le: "unique_loan s u i \<le> 1"
  shows "unique_loan (exec cfg s c) u i \<le> 1"
proof -
  from loans_exec [of cfg s c]
  consider "loans (exec cfg s c) = loans s"
    | v j now estr where "unique_loan s v j = 0"
        "loans (exec cfg s c) = loans s @ [new_loan v j now estr]"
    | P now where "loans (exec cfg s c) = close_loans P now (loans s)"
    | P e where "loans (exec cfg s c)
                   = map (\<lambda>l. if P l then l\<lparr>estrdate := e\<rparr> else l) (loans s)"
    by blast
  then show ?thesis
  proof cases
    case 1
    with le show ?thesis by (simp add: unique_loan_def)
  next
    case 2
    with le show ?thesis
      by (cases "u = v \<and> i = j") (auto simp: unique_loan_def new_loan_def)
  next
    case 3
    with le count_close_loans [of u i P now "loans s"] show ?thesis
      by (simp add: unique_loan_def)
  next
    case 4
    with le count_renewed [of u i P e "loans s"] show ?thesis
      by (simp add: unique_loan_def del: filter_map)
  qed
qed

lemma unique_loan_run: "unique_loan s u i \<le> 1 \<Longrightarrow> unique_loan (run cfg s cs) u i \<le> 1"
proof (induction cs arbitrary: s)
  case Nil
  then show ?case by simp
next
  case (Cons c cs)
  from Cons.prems have "unique_loan (exec cfg s c) u i \<le> 1"
    by (rule unique_loan_exec)
  then have "unique_loan (run cfg (exec cfg s c) cs) u i \<le> 1"
    by (rule Cons.IH)
  then show ?case by simp
qed

lemma borrow_duplicate:
  assumes "unique_loan s u i \<noteq> 0" and "covered cfg s (Borrow u usr i now now')"
  shows "loans (fst (borrow cfg s u usr i now now')) = loans s
     \<and> snd (borrow cfg s u usr i now now') =
         Inr (if is_banned s u then [(Here, BannedFromBorrowing), (Here, MessageTheAdmin)]
              else map (Pair DM) (greeting s u @ [AlreadyOnLoan]))"
proof (cases "is_banned s u")
  case True
  then show ?thesis by (simp add: borrow_banned)
next
  case False
  with assms(1) covered_borrow [OF assms(2)] show ?thesis
    by (simp add: borrow_not_banned borrow_checks_duplicate)
qed

text \<open>
  C2. Along any run of commands that the model covers (texts free of quotes,
  arithmetic within 64-bit integers), a (user, ISBN) pair with at most one active loan
  still has at most one; so it has at most one in every state reached from an empty
  ledger. And a covered \<^verbatim>\<open>borrow\<close> refuses when the pair already has an active loan: the
  loans stay as they are and the reply is "already on loan" (for a banned user the ban
  is reported instead, the ban being checked first). The code falls short of the claim
  outside of these runs: an ISBN text with a quote changes the query that counts the
  active loans of the pair.
\<close>

theorem no_duplicate_active_loans:
  "(covered_run cfg s cs \<and> unique_loan s u i \<le> 1 \<longrightarrow> unique_loan (run cfg s cs) u i \<le> 1)
   \<and> (covered_run cfg s cs \<and> loans s = [] \<longrightarrow> unique_loan (run cfg s cs) u i \<le> 1)
   \<and> (covered cfg s (Borrow u usr i now now') \<and> unique_loan s u i \<noteq> 0 \<longrightarrow>
        loans (fst (borrow cfg s u usr i now now')) = loans s
        \<and> snd (borrow cfg s u usr i now now') =
            Inr (if is_banned s u then [(Here, BannedFromBorrowing), (Here, MessageTheAdmin)]
                 else map (Pair DM) (greeting s u @ [AlreadyOnLoan])))"
proof -
  have "loans s = [] \<longrightarrow> unique_loan s u i \<le> 1"
    by (simp add: unique_loan_def)
  then show ?thesis
    using unique_loan_run [of s u i cfg cs] borrow_duplicate [of s u i cfg usr now now']
    by blast
qed

lemma borrow_again:
  "borrow cfg0 shelf1 7 ''ann'' ''9780441013593'' 650000001 650000004
     = (shelf1, Inr [(DM, AlreadyOnLoan)])"
  by (simp add: borrow_def borrow_checks_def plain_isbn0 unique_loan_def respond_def shelf1_def
      ann_def shelf_loan_def)

lemma run_twice: "run cfg0 db0 twice_run = shelf1"
  by (simp add: twice_run_def shelf_step1) (simp add: exec_def borrow_again)

lemma covered_again:
  "covered cfg0 shelf1 (Borrow 7 ''ann'' ''9780441013593'' 650000001 650000004)"
  by (simp add: plain_isbn0 copies_def int64_def shelf1_def dune_def)

lemma covered_twice: "covered_run cfg0 db0 twice_run"
  unfolding twice_run_def
  by (simp only: covered_run.simps shelf_step1 covered_borrow_db0 covered_again simp_thms)

theorem no_duplicate_active_loans_witness:
  "covered_run cfg0 db0 twice_run
   \<and> loans db0 = [] \<and> unique_loan db0 7 ''9780441013593'' \<le> 1
   \<and> unique_loan (run cfg0 db0 twice_run) 7 ''9780441013593'' = 1
   \<and> covered cfg0 shelf1 (Borrow 7 ''ann'' ''9780441013593'' 650000001 650000004)
   \<and> unique_loan shelf1 7 ''9780441013593'' \<noteq> 0
   \<and> snd (borrow cfg0 shelf1 7 ''ann'' ''9780441013593'' 650000001 650000004)
       = Inr [(DM, AlreadyOnLoan)]"
proof -
  have a: "loans db0 = []" by (simp add: db0_def)
  then have b: "unique_loan db0 7 ''9780441013593'' \<le> 1" by (simp add: unique_loan_def)
  have c: "unique_loan shelf1 7 ''9780441013593'' = 1"
    by (simp add: unique_loan_def shelf1_def shelf_loan_def)
  from no_duplicate_active_loans
    [of cfg0 db0 twice_run 7 "''9780441013593''" "''ann''" 650000001 650000004]
    b covered_twice
  have d: "unique_loan (run cfg0 db0 twice_run) 7 ''9780441013593'' \<le> 1" by blast
  from c have e: "unique_loan (run cfg0 db0 twice_run) 7 ''9780441013593'' = 1"
    by (simp add: run_twice)
  have f: "snd (borrow cfg0 shelf1 7 ''ann'' ''9780441013593'' 650000001 650000004)
             = Inr [(DM, AlreadyOnLoan)]"
    using no_duplicate_active_loans
      [of cfg0 shelf1 "[]" 7 "''9780441013593''" "''ann''" 650000001 650000004] c
      covered_again
    by (simp add: is_banned_def greeting_def shelf1_def ann_def)
  from a b c d e f covered_twice covered_again show ?thesis by simp
qed

lemma loan_kept_refl: "loan_kept l l"
  by (simp add: loan_kept_def)

lemma loan_kept_trans: "loan_kept l l' \<Longrightarrow> loan_kept l' l'' \<Longrightarrow> loan_kept l l''"
  by (simp add: loan_kept_def)

lemma loan_kept_exec:
  assumes "k < length (loans s)"
  shows "k < length (loans (exec cfg s c)) \<and> loan_kept (loans s ! k) (loans (exec cfg s c) ! k)"
proof -
  from loans_exec [of cfg s c]
  consider "loans (exec cfg s c) = loans s"
    | v j now estr where "loans (exec cfg s c) = loans s @ [new_loan v j now estr]"
    | P now where "loans (exec cfg s c) = close_loans P now (loans s)"
    | P e where "loans (exec cfg s c)
                   = map (\<lambda>l. if P l then l\<lparr>estrdate := e\<rparr> else l) (loans s)"
    by blast
  then show ?thesis
  proof cases
    case 1
    with assms show ?thesis by (simp add: loan_kept_refl)
  next
    case 2
    with assms show ?thesis by (simp add: nth_append loan_kept_refl)
  next
    case 3
    with assms show ?thesis by (simp add: close_loans_def loan_kept_def)
  next
    case 4
    with assms show ?thesis by (simp add: loan_kept_def)
  qed
qed

lemma loan_kept_run:
  "k < length (loans s) \<Longrightarrow>
   k < length (loans (run cfg s cs)) \<and> loan_kept (loans s ! k) (loans (run cfg s cs) ! k)"
proof (induction cs arbitrary: s)
  case Nil
  then show ?case by (simp add: loan_kept_refl)
next
  case (Cons c cs)
  from loan_kept_exec [OF Cons.prems, of cfg c]
  have k: "k < length (loans (exec cfg s c))"
    and one: "loan_kept (loans s ! k) (loans (exec cfg s c) ! k)" by simp_all
  from Cons.IH [OF k]
  have "k < length (loans (run cfg (exec cfg s c) cs))"
    and "loan_kept (loans (exec cfg s c) ! k) (loans (run cfg (exec cfg s c) cs) ! k)"
    by simp_all
  with one show ?case by (auto intro: loan_kept_trans)
qed

text \<open>
  C7, as the code has it. A loan that is returned stays returned through any run of
  commands: the row is still there, still returned, with the same borrowing date, user
  and ISBN.
\<close>

theorem returned_stays_returned:
  assumes "k < length (loans s)" and "returned (loans s ! k)"
  shows "k < length (loans (run cfg s cs))
     \<and> returned (loans (run cfg s cs) ! k)
     \<and> bdate (loans (run cfg s cs) ! k) = bdate (loans s ! k)
     \<and> userid (loans (run cfg s cs) ! k) = userid (loans s ! k)
     \<and> isbn (loans (run cfg s cs) ! k) = isbn (loans s ! k)"
  using loan_kept_run [OF assms(1), of cfg cs] assms(2) by (simp add: loan_kept_def)

lemma history_step1:
  "exec cfg0 due_db (Renew 1 ''9780441013593'' 7 30 800000001) =
     due_db\<lparr>loans := [old_loan\<lparr>estrdate := 800000001 + 30 * DAY\<rparr>,
                      open_loan\<lparr>estrdate := 800000001 + 30 * DAY\<rparr>]\<rparr>"
  by (simp add: exec_def fst_renew days_later_def timedelta_def plus_timedelta_def
      datetime_end_def DAY_def due_db_def cfg0_def old_loan_def open_loan_def)

lemma history_step2:
  "exec cfg0 (due_db\<lparr>loans := [old_loan\<lparr>estrdate := 800000001 + 30 * DAY\<rparr>,
                               open_loan\<lparr>estrdate := 800000001 + 30 * DAY\<rparr>]\<rparr>)
      (Return 1 ''9780441013593'' 7 810000001) =
     due_db\<lparr>books := [''9780441013593'' \<mapsto> dune\<lparr>available := 2\<rparr>],
            loans := [old_loan\<lparr>estrdate := 800000001 + 30 * DAY, rdate := Some 810000001\<rparr>,
                      open_loan\<lparr>estrdate := 800000001 + 30 * DAY, returned := True,
                                rdate := Some 810000001\<rparr>]\<rparr>"
  by (simp add: exec_def fst_return_book add_available_def close_loans_def due_db_def db0_def
      dune_def cfg0_def old_loan_def open_loan_def)

lemma history_step3:
  "exec cfg0 (due_db\<lparr>books := [''9780441013593'' \<mapsto> dune\<lparr>available := 2\<rparr>],
            loans := [old_loan\<lparr>estrdate := 800000001 + 30 * DAY, rdate := Some 810000001\<rparr>,
                      open_loan\<lparr>estrdate := 800000001 + 30 * DAY, returned := True,
                                rdate := Some 810000001\<rparr>]\<rparr>)
      (Delete 1 ''9780441013593'' 820000001) =
     due_db\<lparr>books := Map.empty,
            loans := [old_loan\<lparr>estrdate := 800000001 + 30 * DAY, rdate := Some 820000001\<rparr>,
                      open_loan\<lparr>estrdate := 800000001 + 30 * DAY, returned := True,
                                rdate := Some 820000001\<rparr>]\<rparr>"
  by (simp add: exec_def delete_def auth_check_def close_loans_def Let_def due_db_def db0_def
      cfg0_def old_loan_def open_loan_def)

lemma run_history:
  "run cfg0 due_db history_run =
     due_db\<lparr>books := Map.empty,
            loans := [old_loan\<lparr>estrdate := 800000001 + 30 * DAY, rdate := Some 820000001\<rparr>,
                      open_loan\<lparr>estrdate := 800000001 + 30 * DAY, returned := True,
                                rdate := Some 820000001\<rparr>]\<rparr>"
  by (simp add: history_run_def history_step1 history_step2 history_step3)

theorem returned_stays_returned_witness:
  "0 < length (loans due_db) \<and> returned (loans due_db ! 0)
   \<and> returned (loans (run cfg0 due_db history_run) ! 0)
   \<and> bdate (loans (run cfg0 due_db history_run) ! 0) = bdate old_loan
   \<and> userid (loans (run cfg0 due_db history_run) ! 0) = 7
   \<and> isbn (loans (run cfg0 due_db history_run) ! 0) = ''9780441013593''"
proof -
  have a: "0 < length (loans due_db)" and b: "returned (loans due_db ! 0)"
    and c: "loans due_db ! 0 = old_loan"
    by (simp_all add: due_db_def old_loan_def)
  from returned_stays_returned [OF a b, of cfg0 history_run] a b show ?thesis
    by (simp add: c) (simp add: old_loan_def)
qed

text \<open>C7 as the spec states it fails: for a loan returned long ago, renew replaces the
  due date, and return and delete replace the return date.\<close>

theorem returned_loan_modified_counterexample:
  "returned (loans due_db ! 0)
   \<and> estrdate (loans due_db ! 0) = 1209600000001
   \<and> estrdate (loans (exec cfg0 due_db (Renew 1 ''9780441013593'' 7 30 800000001)) ! 0)
       = 2592800000001
   \<and> rdate (loans due_db ! 0) = Some 500000001
   \<and> rdate (loans (exec cfg0 due_db (Return 1 ''9780441013593'' 7 810000001)) ! 0)
       = Some 810000001
   \<and> rdate (loans (exec cfg0 due_db (Delete 1 ''9780441013593'' 820000001)) ! 0)
       = Some 820000001"
proof -
  have "returned (loans due_db ! 0)" "estrdate (loans due_db ! 0) = 1209600000001"
    "rdate (loans due_db ! 0) = Some 500000001"
    by (simp_all add: due_db_def old_loan_def)
  moreover
  have "estrdate (loans (exec cfg0 due_db (Renew 1 ''9780441013593'' 7 30 800000001)) ! 0)
          = 2592800000001"
    by (simp add: history_step1 DAY_def)
  moreover
  have "rdate (loans (exec cfg0 due_db (Return 1 ''9780441013593'' 7 810000001)) ! 0)
          = Some 810000001"
    by (simp add: exec_def fst_return_book close_loans_def due_db_def cfg0_def old_loan_def)
  moreover
  have "rdate (loans (exec cfg0 due_db (Delete 1 ''9780441013593'' 820000001)) ! 0)
          = Some 820000001"
    by (simp add: exec_def loans_delete close_loans_def due_db_def cfg0_def old_loan_def)
  ultimately show ?thesis by blast
qed
end
